theory Spec2Isabelle
  imports Complex_Main
begin

text \<open>
  A model of the check-in bot: the store of \<open>database.ts\<close> (event ledger, daily rate
  limiter, statistics aggregator) and the workflow of \<open>main.ts\<close> that polls the
  notification feed and replies. Every function of the source that the properties below
  are about is a function here, with the store passed in and returned. The remote
  services, the configuration and the clock are arguments (\<open>Env\<close>); what a function
  calls is returned as a list of events.
\<close>

section \<open>Data model of \<open>database.ts\<close>\<close>

text \<open>
  The interfaces of \<open>database.ts\<close> become records. A TypeScript \<open>number\<close> that holds a
  count, an identifier or a millisecond timestamp is an \<open>int\<close>; the recognition
  confidence (a fraction between 0 and 1) is a \<open>rat\<close>.
\<close>

record CloudType =
  type :: string
  confidence :: rat
  description :: "string option"

record CheckInRecord =
  dynamicId :: string
  timestamp :: int
  cloudTypes :: "CloudType list"
  imageCount :: int
  analysis :: string

record ProcessedAtMessage =
  atMessageId :: int
  dynamicId_p :: string
  processedAt :: int
  fromUser :: string
  uri_p :: string

text \<open>
  \<open>cloudTypeStats\<close> is declared as \<open>{ [cloudType: string]: number }\<close>, but it is an
  ordinary JavaScript object that the code indexes with labels it does not filter, so
  what a key holds is a JavaScript value: a number (\<open>Count\<close>), a string (\<open>Text\<close>), \<open>NaN\<close>
  or \<open>null\<close>. The only strings that arise are the text that a property inherited from
  \<open>Object.prototype\<close> converts to, followed by a run of the character \<open>1\<close>:
  \<open>Text (FunctionSource f) n\<close> is \<open>function f() { [native code] }\<close> followed by \<open>n\<close> ones,
  \<open>Text ObjectTag n\<close> is \<open>[object Object]\<close> followed by \<open>n\<close> ones. The map holds the own
  properties of the object.
\<close>

datatype text_base = FunctionSource string | ObjectTag

datatype jsv = Count int | Text text_base nat | NaN | Null

record UserStats =
  userName :: string
  totalCheckIns :: int
  totalImages :: int
  cloudTypeStats :: "string \<rightharpoonup> jsv"
  firstCheckIn :: int
  lastCheckIn :: int
  checkInRecords :: "CheckInRecord list"

text \<open>The object \<open>{authorId, date, timestamp}\<close> that \<open>recordDailyComment\<close> stores.\<close>

record DailyComment =
  authorId_d :: string
  date_d :: string
  timestamp_d :: int

section \<open>The Level store\<close>

text \<open>
  One key space of strings holds every kind of value (\<open>valueEncoding: 'json'\<close>: a value
  read back is a fresh copy, so nothing is shared between two keys). The store has two
  faults. While it is \<open>closed\<close> every operation raises. While \<open>put_raises\<close> is set the
  medium takes no new value: a \<open>put\<close> raises, while \<open>get\<close> and \<open>del\<close> complete. So a read
  can succeed and the write that follows it raise. \<open>failing\<close> says that some operation of
  the store raises.
  \<open>db_get\<close> answers \<open>None\<close> where the source either catches the error of \<open>get\<close> or
  receives \<open>undefined\<close>: for a key that is not there, and for a closed store. \<open>put\<close>
  overwrites; \<open>del\<close> of a key that is not there completes without an error.
\<close>

datatype jsval =
    VUserStats UserStats
  | VRecord CheckInRecord
  | VDaily DailyComment
  | VProcessed ProcessedAtMessage

record Level =
  kv :: "string \<rightharpoonup> jsval"
  closed :: bool
  put_raises :: bool

definition failing :: "Level \<Rightarrow> bool" where
  "failing db = (closed db \<or> put_raises db)"

text \<open>
  What \<open>JSON.stringify\<close> writes for a value: \<open>NaN\<close> becomes \<open>null\<close>, numbers, strings and
  \<open>null\<close> stay. Only the histogram of a statistics object can hold a \<open>NaN\<close>.
\<close>

fun toJSON :: "jsv \<Rightarrow> jsv" where
  "toJSON NaN = Null"
| "toJSON v = v"

definition jsonStats :: "UserStats \<Rightarrow> UserStats" where
  "jsonStats userStats =
     userStats\<lparr>cloudTypeStats := (\<lambda>l. map_option toJSON (cloudTypeStats userStats l))\<rparr>"

fun jsonValue :: "jsval \<Rightarrow> jsval" where
  "jsonValue (VUserStats userStats) = VUserStats (jsonStats userStats)"
| "jsonValue v = v"

definition db_get :: "Level \<Rightarrow> string \<Rightarrow> jsval option" where
  "db_get db key = (if closed db then None else kv db key)"

definition db_put :: "Level \<Rightarrow> string \<Rightarrow> jsval \<Rightarrow> Level option" where
  "db_put db key v =
     (if closed db \<or> put_raises db then None
      else Some (db\<lparr>kv := (kv db)(key \<mapsto> jsonValue v)\<rparr>))"

definition db_del :: "Level \<Rightarrow> string \<Rightarrow> Level option" where
  "db_del db key = (if closed db then None else Some (db\<lparr>kv := (kv db)(key := None)\<rparr>))"

subsection \<open>Numbers and dates inside keys\<close>

text \<open>
  A template literal prints an integer in decimal (all identifiers and timestamps of the
  program are integers far below \<open>10^21\<close>, where JavaScript would switch to exponent
  notation).
\<close>

definition digit_char :: "nat \<Rightarrow> char" where
  "digit_char d = ''0123456789'' ! d"

fun nat_str :: "nat \<Rightarrow> string" where
  "nat_str n = (if n < 10 then [digit_char n] else nat_str (n div 10) @ [digit_char (n mod 10)])"

declare nat_str.simps [simp del]

definition num_str :: "int \<Rightarrow> string" where
  "num_str i = (if i < 0 then CHR ''-'' # nat_str (nat (- i)) else nat_str (nat i))"

text \<open>\<open>s.padStart(2, '0')\<close>\<close>

definition padStart2 :: "string \<Rightarrow> string" where
  "padStart2 s = replicate (2 - length s) CHR ''0'' @ s"

text \<open>
  What \<open>new Date()\<close> shows through \<open>getFullYear()\<close>, \<open>getMonth()\<close> (0 to 11) and
  \<open>getDate()\<close>: the calendar day in the local time zone of the process.
\<close>

record LocalDate =
  getFullYear :: nat
  getMonth :: nat
  getDate :: nat

definition dateKey :: "LocalDate \<Rightarrow> string" where
  "dateKey today =
     nat_str (getFullYear today) @ ''-'' @ padStart2 (nat_str (getMonth today + 1))
       @ ''-'' @ padStart2 (nat_str (getDate today))"

definition daily_key :: "string \<Rightarrow> LocalDate \<Rightarrow> string" where
  "daily_key authorId today = ''daily_comment:'' @ authorId @ '':'' @ dateKey today"

definition processed_key :: "int \<Rightarrow> string" where
  "processed_key messageId = ''processed_at:'' @ num_str messageId"

definition user_key :: "string \<Rightarrow> string" where
  "user_key userId = ''user:'' @ userId"

definition record_key :: "string \<Rightarrow> int \<Rightarrow> string" where
  "record_key userId ts = ''record:'' @ userId @ '':'' @ num_str ts"

section \<open>Rate limiter and event ledger\<close>

definition hasUserCommentedToday :: "LocalDate \<Rightarrow> Level \<Rightarrow> string \<Rightarrow> bool" where
  "hasUserCommentedToday today db authorId = (db_get db (daily_key authorId today) \<noteq> None)"

text \<open>\<open>None\<close>: the function rethrows the error of \<open>put\<close>.\<close>

definition recordDailyComment :: "LocalDate \<Rightarrow> int \<Rightarrow> Level \<Rightarrow> string \<Rightarrow> Level option" where
  "recordDailyComment today now db authorId =
     db_put db (daily_key authorId today)
       (VDaily \<lparr>authorId_d = authorId, date_d = dateKey today, timestamp_d = now\<rparr>)"

definition recordProcessedAtMessage :: "Level \<Rightarrow> ProcessedAtMessage \<Rightarrow> Level option" where
  "recordProcessedAtMessage db processedMessage =
     db_put db (processed_key (atMessageId processedMessage)) (VProcessed processedMessage)"

definition isAtMessageProcessed :: "Level \<Rightarrow> int \<Rightarrow> bool" where
  "isAtMessageProcessed db messageId = (db_get db (processed_key messageId) \<noteq> None)"

definition getProcessedAtMessage :: "Level \<Rightarrow> int \<Rightarrow> jsval option" where
  "getProcessedAtMessage db messageId = db_get db (processed_key messageId)"

text \<open>The boolean is \<open>true\<close> when \<open>del\<close> completed and \<open>false\<close> when it raised.\<close>

definition deleteProcessedAtMessage :: "Level \<Rightarrow> int \<Rightarrow> bool \<times> Level" where
  "deleteProcessedAtMessage db messageId =
     (case db_del db (processed_key messageId) of
        Some db' \<Rightarrow> (True, db')
      | None \<Rightarrow> (False, db))"

section \<open>Statistics aggregator\<close>

text \<open>
  A read of \<open>user:<id>\<close>. Only \<open>recordCheckIn\<close> and \<open>rollbackLastCheckIn\<close> write under
  this prefix, and both write a \<open>UserStats\<close>; a value of another shape cannot be there
  and is read as no value.
\<close>

definition get_user :: "Level \<Rightarrow> string \<Rightarrow> UserStats option" where
  "get_user db userId =
     (case db_get db (user_key userId) of
        Some (VUserStats userStats) \<Rightarrow> Some userStats
      | _ \<Rightarrow> None)"

definition getUserStats :: "Level \<Rightarrow> string \<Rightarrow> UserStats option" where
  "getUserStats db userId = get_user db userId"

text \<open>\<open>xs.slice(start)\<close> of JavaScript, for an integer \<open>start\<close>.\<close>

definition slice_from :: "int \<Rightarrow> 'a list \<Rightarrow> 'a list" where
  "slice_from start xs =
     (if start < 0 then drop (nat (max (int (length xs) + start) 0)) xs
      else drop (nat (min start (int (length xs)))) xs)"

subsection \<open>Properties of the histogram object\<close>

text \<open>
  The histogram is created by the literal \<open>{}\<close> or by \<open>JSON.parse\<close>, so its prototype is
  \<open>Object.prototype\<close>. A read \<open>obj[l]\<close> finds the own property, else the property that
  \<open>Object.prototype\<close> defines under that name: one of its eleven methods, or for
  \<open>__proto__\<close> the prototype object itself; else \<open>undefined\<close>. The property \<open>constructor\<close>
  is the function \<open>Object\<close>; every other method is a function named like the property.
\<close>

datatype jsread = Own jsv | Inherited string | Prototype | Undefined

definition objectPrototypeFunctions :: "string list" where
  "objectPrototypeFunctions =
     [''constructor'', ''__defineGetter__'', ''__defineSetter__'', ''hasOwnProperty'',
      ''__lookupGetter__'', ''__lookupSetter__'', ''isPrototypeOf'', ''propertyIsEnumerable'',
      ''toString'', ''valueOf'', ''toLocaleString'']"

definition getProp :: "(string \<rightharpoonup> jsv) \<Rightarrow> string \<Rightarrow> jsread" where
  "getProp obj l =
     (case obj l of
        Some v \<Rightarrow> Own v
      | None \<Rightarrow>
          if l \<in> set objectPrototypeFunctions
          then Inherited (if l = ''constructor'' then ''Object'' else l)
          else if l = ''__proto__'' then Prototype
          else Undefined)"

text \<open>
  An assignment \<open>obj[l] = v\<close> of a number or a string (the program assigns nothing
  else): it creates or overwrites the own property, except under \<open>__proto__\<close>, where it
  runs the setter of \<open>Object.prototype\<close>, which ignores a value that is not an object.
\<close>

definition setProp :: "(string \<rightharpoonup> jsv) \<Rightarrow> string \<Rightarrow> jsv \<Rightarrow> (string \<rightharpoonup> jsv)" where
  "setProp obj l v = (if l = ''__proto__'' \<and> obj l = None then obj else obj(l \<mapsto> v))"

text \<open>
  The condition \<open>if (x)\<close>: \<open>0\<close>, \<open>NaN\<close>, \<open>null\<close> and \<open>undefined\<close> are falsy; a non-empty string, a
  function and an object are truthy.
\<close>

fun truthy_js :: "jsread \<Rightarrow> bool" where
  "truthy_js (Own (Count c)) = (c \<noteq> 0)"
| "truthy_js (Own (Text b n)) = True"
| "truthy_js (Own NaN) = False"
| "truthy_js (Own Null) = False"
| "truthy_js (Inherited f) = True"
| "truthy_js Prototype = True"
| "truthy_js Undefined = False"

text \<open>
  The expression \<open>(x || 0) + 1\<close>. A falsy \<open>x\<close> gives \<open>0 + 1\<close>. A number gives its successor.
  For a string, a function or an object \<open>+\<close> is string concatenation: the operand is
  converted to its text and the character \<open>1\<close> is put behind it.
\<close>

fun orZeroPlusOne :: "jsread \<Rightarrow> jsv" where
  "orZeroPlusOne (Own (Count c)) = (if c \<noteq> 0 then Count (c + 1) else Count 1)"
| "orZeroPlusOne (Own (Text b n)) = Text b (n + 1)"
| "orZeroPlusOne (Own NaN) = Count 1"
| "orZeroPlusOne (Own Null) = Count 1"
| "orZeroPlusOne (Inherited f) = Text (FunctionSource f) 1"
| "orZeroPlusOne Prototype = Text ObjectTag 1"
| "orZeroPlusOne Undefined = Count 1"

text \<open>
  The expression \<open>x - 1\<close>: the operand is converted to a number, and none of the texts
  above, no function and no object is the text of a number.
\<close>

fun minusOne :: "jsread \<Rightarrow> jsv" where
  "minusOne (Own (Count c)) = Count (c - 1)"
| "minusOne (Own (Text b n)) = NaN"
| "minusOne (Own NaN) = NaN"
| "minusOne (Own Null) = Count (- 1)"
| "minusOne (Inherited f) = NaN"
| "minusOne Prototype = NaN"
| "minusOne Undefined = NaN"

text \<open>The comparison \<open>x <= 0\<close>: false whenever the operand converts to \<open>NaN\<close>.\<close>

fun leZero :: "jsread \<Rightarrow> bool" where
  "leZero (Own (Count c)) = (c \<le> 0)"
| "leZero (Own (Text b n)) = False"
| "leZero (Own NaN) = False"
| "leZero (Own Null) = True"
| "leZero (Inherited f) = False"
| "leZero Prototype = False"
| "leZero Undefined = False"

text \<open>
  The body of the first \<open>forEach\<close>:
  \<open>cloudTypeStats[typeName] = (cloudTypeStats[typeName] || 0) + 1\<close>.
\<close>

definition addCloud :: "CloudType \<Rightarrow> (string \<rightharpoonup> jsv) \<Rightarrow> (string \<rightharpoonup> jsv)" where
  "addCloud cloud stats =
     (let typeName = type cloud
      in setProp stats typeName (orZeroPlusOne (getProp stats typeName)))"

text \<open>The statistics object built when the read of \<open>user:<id>\<close> finds nothing.\<close>

definition initialStats :: "string \<Rightarrow> CheckInRecord \<Rightarrow> UserStats" where
  "initialStats name record =
     \<lparr>userName = name, totalCheckIns = 0, totalImages = 0, cloudTypeStats = Map.empty,
      firstCheckIn = timestamp record, lastCheckIn = timestamp record, checkInRecords = []\<rparr>"

text \<open>Lines 196 to 214 of \<open>recordCheckIn\<close>: the update of the statistics object.\<close>

definition updateStats :: "string \<Rightarrow> CheckInRecord \<Rightarrow> UserStats \<Rightarrow> UserStats" where
  "updateStats name record userStats =
     (let pushed = checkInRecords userStats @ [record] in
      userStats\<lparr>userName := name,
                totalCheckIns := totalCheckIns userStats + 1,
                totalImages := totalImages userStats + imageCount record,
                lastCheckIn := timestamp record,
                cloudTypeStats := fold addCloud (cloudTypes record) (cloudTypeStats userStats),
                checkInRecords := (if length pushed > 100 then slice_from (- 100) pushed else pushed)\<rparr>)"

text \<open>
  \<open>None\<close>: the function rethrows the error of a \<open>put\<close>. The \<open>put\<close> writes the object as
  JSON (\<open>db_put\<close>).
\<close>

definition recordCheckIn :: "Level \<Rightarrow> string \<Rightarrow> string \<Rightarrow> CheckInRecord \<Rightarrow> Level option" where
  "recordCheckIn db userId name record =
     (let userStats = (case get_user db userId of
                         Some found \<Rightarrow> found
                       | None \<Rightarrow> initialStats name record);
          userStats = updateStats name record userStats
      in case db_put db (user_key userId) (VUserStats userStats) of
           None \<Rightarrow> None
         | Some db1 \<Rightarrow> db_put db1 (record_key userId (timestamp record)) (VRecord record))"

text \<open>
  The body of the \<open>forEach\<close> of the rollback:
  \<open>if (stats[typeName]) { stats[typeName] -= 1; if (stats[typeName] <= 0) delete stats[typeName]; }\<close>.
\<close>

definition removeCloud :: "CloudType \<Rightarrow> (string \<rightharpoonup> jsv) \<Rightarrow> (string \<rightharpoonup> jsv)" where
  "removeCloud cloud stats =
     (let typeName = type cloud in
      if truthy_js (getProp stats typeName)
      then (let stats1 = setProp stats typeName (minusOne (getProp stats typeName))
            in if leZero (getProp stats1 typeName) then stats1(typeName := None) else stats1)
      else stats)"

text \<open>Lines 269 to 297 of \<open>rollbackLastCheckIn\<close>, for a non-empty record list.\<close>

definition undoStats :: "UserStats \<Rightarrow> UserStats" where
  "undoStats userStats =
     (let lastRecord = last (checkInRecords userStats);
          popped = butlast (checkInRecords userStats)
      in userStats\<lparr>checkInRecords := popped,
                   totalCheckIns := totalCheckIns userStats - 1,
                   totalImages := totalImages userStats - imageCount lastRecord,
                   cloudTypeStats := fold removeCloud (cloudTypes lastRecord) (cloudTypeStats userStats),
                   lastCheckIn := (if length popped > 0 then timestamp (last popped)
                                   else firstCheckIn userStats)\<rparr>)"

text \<open>
  The error of the \<open>del\<close> of the single record is caught and logged; the error of the
  final \<open>put\<close> reaches the outer \<open>catch\<close>, which answers \<open>false\<close>.
\<close>

definition rollbackLastCheckIn :: "Level \<Rightarrow> string \<Rightarrow> bool \<times> Level" where
  "rollbackLastCheckIn db userId =
     (case get_user db userId of
        None \<Rightarrow> (False, db)
      | Some userStats \<Rightarrow>
          if length (checkInRecords userStats) = 0 then (False, db)
          else
            let lastRecord = last (checkInRecords userStats);
                userStats' = undoStats userStats;
                db1 = (case db_del db (record_key userId (timestamp lastRecord)) of
                         None \<Rightarrow> db
                       | Some d \<Rightarrow> d)
            in case db_put db1 (user_key userId) (VUserStats userStats') of
                 None \<Rightarrow> (False, db1)
               | Some db2 \<Rightarrow> (True, db2))"

definition getRecentCheckIns :: "Level \<Rightarrow> string \<Rightarrow> int \<Rightarrow> CheckInRecord list" where
  "getRecentCheckIns db userId limit =
     (case getUserStats db userId of
        None \<Rightarrow> []
      | Some userStats \<Rightarrow> rev (slice_from (- limit) (checkInRecords userStats)))"

section \<open>Payloads and collaborators of \<open>main.ts\<close>\<close>

text \<open>
  The detail of a dynamic arrives as untyped JSON. The records below hold the paths that
  \<open>main.ts\<close> reads; an optional path is an \<open>option\<close>, a string that may be missing is
  the empty string (both are falsy), and \<open>modules\<close> is an array or a single object.
\<close>

record Pic =
  url :: string

record DrawItem =
  src :: string

record Paragraph =
  para_type :: int
  pic_pics :: "Pic list option"

record Major =
  opus_pics :: "Pic list option"
  draw_items :: "DrawItem list option"

record ModuleAuthor =
  mid :: "int option"
  uid :: "int option"
  name :: string
  pub_ts :: "int option"

record ModuleItem =
  module_type :: string
  module_top_pics :: "Pic list option"
  module_content_paragraphs :: "Paragraph list option"
  module_dynamic_major :: "Major option"
  module_author :: "ModuleAuthor option"

datatype Modules = ModuleArray "ModuleItem list" | ModuleObject ModuleItem

record Basic =
  comment_type :: int
  rid_str :: string
  basic_field :: "string \<rightharpoonup> int"

record DynamicData =
  top_field :: "string \<rightharpoonup> int"
  basic :: "Basic option"
  modules :: "Modules option"
  top_uid :: "int option"
  top_mid :: "int option"
  desc_uname :: string

record DynamicCardItem =
  id_str :: string
  basic_c :: Basic
  modules_c :: "Modules option"

record DynamicCardImage =
  url_i :: string
  type_i :: string

record AtMessage =
  id_m :: int
  nickname :: string
  uri :: string
  business_id :: int

record CommentReply =
  member_mid :: string
  replies :: "string list option"

record ImageInfo =
  img_src :: string
  img_width :: int
  img_height :: int
  img_size :: int

text \<open>The form that \<open>postComment\<close> sends to the comment endpoint.\<close>

record Payload =
  oid :: string
  type_p :: int
  message :: string
  csrf :: string
  pictures :: "ImageInfo option"

datatype CommentsResult = CommentsThrows | CommentsData "CommentReply list option"

datatype PostResult = PostThrows | PostCode int

datatype FeedResult = FeedThrows | FeedItems "AtMessage list option"

text \<open>
  The configuration, the clock and the answers of the remote services. A detail request
  answers \<open>None\<close> when it raises or carries no item; the analysis answers \<open>None\<close> when
  it raises; the image generator answers \<open>None\<close> when it raises and the upload answers
  \<open>None\<close> when it fails.
\<close>

record Env =
  cookie :: string
  uidToMonitor :: string
  commentText :: string
  enableCloudAnalysis :: bool
  enableCheckInImage :: bool
  now :: int
  today :: LocalDate
  getAtFeed :: FeedResult
  getOpusDetail :: "string \<Rightarrow> DynamicData option"
  getDynamicDetails :: "string \<Rightarrow> DynamicData option"
  getComments :: "int \<Rightarrow> string \<Rightarrow> CommentsResult"
  analyzeMultipleImagesWithTypes :: "string list \<Rightarrow> (CloudType list \<times> string) option"
  generateCheckInImage :: "UserStats \<Rightarrow> string option"
  uploadImageToBiliBili :: "string \<Rightarrow> ImageInfo option"
  addComment :: "Payload \<Rightarrow> PostResult"

text \<open>
  What one notification made happen outside the function: requests to the content
  service, the analysis, the image pipeline and the comment endpoint, and the calls that
  write to the store.
\<close>

datatype Event =
    CallOpusDetail string
  | CallDynamicDetails string
  | CallGetComments int string
  | CallAnalyze "string list"
  | CallGenerateImage
  | CallUploadImage string
  | CallAddComment Payload
  | CallRecordCheckIn string
  | CallRollback string
  | CallRecordDaily string
  | CallRecordProcessed int

datatype Call = FeedCall | ForMessage int Event

section \<open>Helpers of \<open>main.ts\<close>\<close>

definition truthy :: "int option \<Rightarrow> bool" where
  "truthy v = (case v of None \<Rightarrow> False | Some n \<Rightarrow> n \<noteq> 0)"

definition starts_with :: "string \<Rightarrow> string \<Rightarrow> bool" where
  "starts_with p s = (take (length p) s = p)"

text \<open>\<open>s.includes(p)\<close>\<close>

fun includes_str :: "string \<Rightarrow> string \<Rightarrow> bool" where
  "includes_str p [] = (p = [])"
| "includes_str p (c # cs) = (starts_with p (c # cs) \<or> includes_str p cs)"

definition is_digit :: "char \<Rightarrow> bool" where
  "is_digit c = (c \<in> set ''0123456789'')"

text \<open>
  \<open>s.match(/p(\d+)/)\<close> for a literal, non-empty \<open>p\<close>: the leftmost place where \<open>p\<close> is
  followed by a digit, and the longest run of digits there.
\<close>

fun match_digits_after :: "string \<Rightarrow> string \<Rightarrow> string option" where
  "match_digits_after p [] = None"
| "match_digits_after p (c # cs) =
     (let ds = takeWhile is_digit (drop (length p) (c # cs))
      in if starts_with p (c # cs) \<and> ds \<noteq> [] then Some ds else match_digits_after p cs)"

text \<open>The text after the leftmost occurrence of a non-empty \<open>p\<close>.\<close>

fun after_first :: "string \<Rightarrow> string \<Rightarrow> string option" where
  "after_first p [] = None"
| "after_first p (c # cs) =
     (if starts_with p (c # cs) then Some (drop (length p) (c # cs)) else after_first p cs)"

text \<open>\<open>None\<close>: the function throws.\<close>

definition getCsrfToken :: "string \<Rightarrow> string option" where
  "getCsrfToken ck =
     (case after_first ''bili_jct='' ck of
        None \<Rightarrow> None
      | Some rest \<Rightarrow>
          let m1 = takeWhile (\<lambda>c. c \<noteq> CHR '';'') rest
          in if m1 \<noteq> [] then Some m1 else None)"

definition modulesArray :: "Modules \<Rightarrow> ModuleItem list" where
  "modulesArray ms = (case ms of ModuleArray xs \<Rightarrow> xs | ModuleObject m \<Rightarrow> [m])"

definition picImages :: "string \<Rightarrow> Pic list \<Rightarrow> DynamicCardImage list" where
  "picImages ty pics = map (\<lambda>p. \<lparr>url_i = url p, type_i = ty\<rparr>) (filter (\<lambda>p. url p \<noteq> []) pics)"

definition moduleImages :: "ModuleItem \<Rightarrow> DynamicCardImage list" where
  "moduleImages m =
     (case module_top_pics m of
        Some pics \<Rightarrow> if module_type m = ''MODULE_TYPE_TOP'' then picImages ''album_pic'' pics else []
      | None \<Rightarrow> [])
     @ (case module_content_paragraphs m of
          Some paragraphs \<Rightarrow>
            if module_type m = ''MODULE_TYPE_CONTENT''
            then concat (map (\<lambda>paragraph.
                   case pic_pics paragraph of
                     Some pics \<Rightarrow> if para_type paragraph = 2 then picImages ''content_pic'' pics else []
                   | None \<Rightarrow> []) paragraphs)
            else []
        | None \<Rightarrow> [])
     @ (case module_dynamic_major m of
          None \<Rightarrow> []
        | Some major \<Rightarrow>
            (case opus_pics major of Some pics \<Rightarrow> picImages ''opus_pic'' pics | None \<Rightarrow> [])
            @ (case draw_items major of
                 Some items \<Rightarrow>
                   map (\<lambda>item. \<lparr>url_i = src item, type_i = ''draw_pic''\<rparr>)
                     (filter (\<lambda>item. src item \<noteq> []) items)
               | None \<Rightarrow> []))"

definition checkImagesInDynamicCard :: "DynamicCardItem \<Rightarrow> DynamicCardImage list" where
  "checkImagesInDynamicCard dynamicCard =
     (case modules_c dynamicCard of
        None \<Rightarrow> []
      | Some ms \<Rightarrow> concat (map moduleImages (modulesArray ms)))"

fun authorIdOfModules :: "ModuleItem list \<Rightarrow> string option" where
  "authorIdOfModules [] = None"
| "authorIdOfModules (m # ms) =
     (case module_author m of
        None \<Rightarrow> authorIdOfModules ms
      | Some a \<Rightarrow>
          if truthy (mid a) then Some (num_str (the (mid a)))
          else if truthy (uid a) then Some (num_str (the (uid a)))
          else authorIdOfModules ms)"

definition extractAuthorId :: "DynamicData \<Rightarrow> string option" where
  "extractAuthorId dynamicData =
     (case (case modules dynamicData of
              None \<Rightarrow> None
            | Some ms \<Rightarrow> authorIdOfModules (modulesArray ms)) of
        Some a \<Rightarrow> Some a
      | None \<Rightarrow>
          if truthy (top_uid dynamicData) then Some (num_str (the (top_uid dynamicData)))
          else if truthy (top_mid dynamicData) then Some (num_str (the (top_mid dynamicData)))
          else None)"

fun authorNameOfModules :: "ModuleItem list \<Rightarrow> string option" where
  "authorNameOfModules [] = None"
| "authorNameOfModules (m # ms) =
     (case module_author m of
        None \<Rightarrow> authorNameOfModules ms
      | Some a \<Rightarrow> if name a \<noteq> [] then Some (name a) else authorNameOfModules ms)"

definition extractAuthorName :: "DynamicData \<Rightarrow> string option" where
  "extractAuthorName dynamicData =
     (case (case modules dynamicData of
              None \<Rightarrow> None
            | Some ms \<Rightarrow> authorNameOfModules (modulesArray ms)) of
        Some n \<Rightarrow> Some n
      | None \<Rightarrow> if desc_uname dynamicData \<noteq> [] then Some (desc_uname dynamicData) else None)"

text \<open>The first of the time fields that is truthy, in milliseconds.\<close>

definition timeFields :: "string list" where
  "timeFields = [''pub_time'', ''pub_ts'', ''ctime'', ''timestamp'', ''create_time'']"

fun firstTime :: "(string \<rightharpoonup> int) \<Rightarrow> string list \<Rightarrow> int option" where
  "firstTime obj [] = None"
| "firstTime obj (field # rest) =
     (if truthy (obj field) then Some (the (obj field) * 1000) else firstTime obj rest)"

fun authorTime :: "ModuleItem list \<Rightarrow> int option" where
  "authorTime [] = None"
| "authorTime (m # ms) =
     (case module_author m of
        None \<Rightarrow> authorTime ms
      | Some a \<Rightarrow> if truthy (pub_ts a) then Some (the (pub_ts a) * 1000) else authorTime ms)"

definition createTimeOf :: "DynamicData \<Rightarrow> int option" where
  "createTimeOf dynamicData =
     (let t1 = firstTime (top_field dynamicData) timeFields;
          t2 = (if \<not> truthy t1
                then (case basic dynamicData of
                        Some b \<Rightarrow> (case firstTime (basic_field b) timeFields of
                                     Some t \<Rightarrow> Some t
                                   | None \<Rightarrow> t1)
                      | None \<Rightarrow> t1)
                else t1)
      in if \<not> truthy t2
         then (case modules dynamicData of
                 Some ms \<Rightarrow> (case authorTime (modulesArray ms) of Some t \<Rightarrow> Some t | None \<Rightarrow> t2)
               | None \<Rightarrow> t2)
         else t2)"

definition oneDayMs :: int where
  "oneDayMs = 24 * 60 * 60 * 1000"

text \<open>The UTF-8 bytes of the Chinese literals of \<open>postComment\<close>.\<close>

definition defaultNamePrefix :: string where
  "defaultNamePrefix = map char_of [231, 148, 168, 230, 136, 183 :: nat]"

definition defaultCloudType :: CloudType where
  "defaultCloudType =
     \<lparr>type = map char_of [228, 186, 145, 230, 156, 181 :: nat],
      confidence = 1 / 2,
      description = Some (map char_of
        [228, 186, 145, 230, 156, 181, 229, 136, 134, 230, 158, 144, 229, 138, 159,
         232, 131, 189, 230, 156, 170, 229, 144, 175, 231, 148, 168 :: nat])\<rparr>"

definition alreadyCommented :: "string \<Rightarrow> CommentReply list \<Rightarrow> bool" where
  "alreadyCommented monitored comments =
     list_ex (\<lambda>comment.
        member_mid comment = monitored \<or>
        (case replies comment of
           None \<Rightarrow> False
         | Some subReplies \<Rightarrow> list_ex (\<lambda>m. m = monitored) subReplies)) comments"

section \<open>The workflow of \<open>main.ts\<close>\<close>

subsection \<open>\<open>postComment\<close>\<close>

text \<open>
  Lines 869 to 911: the cloud analysis. \<open>None\<close> is the early \<open>return false\<close> (the
  analysis raised, or there is no image to analyse).
\<close>

definition analysisStep ::
  "Env \<Rightarrow> DynamicCardImage list \<Rightarrow> (CloudType list \<times> string) option \<times> Event list" where
  "analysisStep env images =
     (if enableCloudAnalysis env then
        (if length images > 0 then
           (let imageUrls = map url_i images
            in (analyzeMultipleImagesWithTypes env imageUrls, [CallAnalyze imageUrls]))
         else (None, []))
      else (Some ([defaultCloudType], commentText env), []))"

text \<open>
  Lines 913 to 937: the tentative check-in. The result is \<open>recordSaved\<close>, \<open>userStats\<close>,
  the store and the calls made; an error of \<open>recordCheckIn\<close> is caught and logged.
\<close>

definition saveCheckIn ::
  "Env \<Rightarrow> Level \<Rightarrow> string option \<Rightarrow> DynamicData option \<Rightarrow> DynamicCardItem \<Rightarrow> CloudType list \<Rightarrow> string
     \<Rightarrow> bool \<times> UserStats option \<times> Level \<times> Event list" where
  "saveCheckIn env db authorId dynamicData dynamicCard cts text =
     (case authorId of
        None \<Rightarrow> (False, None, db, [])
      | Some a \<Rightarrow>
          if length cts > 0 then
            (let images = checkImagesInDynamicCard dynamicCard;
                 authorName = (case (case dynamicData of
                                       Some d \<Rightarrow> extractAuthorName d
                                     | None \<Rightarrow> None) of
                                 Some n \<Rightarrow> n
                               | None \<Rightarrow> defaultNamePrefix @ a);
                 checkInRecord = \<lparr>dynamicId = id_str dynamicCard, timestamp = now env,
                                  cloudTypes = cts, imageCount = int (length images),
                                  analysis = text\<rparr>
             in case recordCheckIn db a authorName checkInRecord of
                  Some db1 \<Rightarrow> (True, getUserStats db1 a, db1, [CallRecordCheckIn a])
                | None \<Rightarrow> (False, None, db, [CallRecordCheckIn a]))
          else (False, None, db, []))"

text \<open>Lines 939 to 966: the commemorative image; every failure leaves \<open>imageInfo\<close> empty.\<close>

definition checkInImageStep :: "Env \<Rightarrow> UserStats option \<Rightarrow> ImageInfo option \<times> Event list" where
  "checkInImageStep env userStats =
     (case userStats of
        None \<Rightarrow> (None, [])
      | Some st \<Rightarrow>
          if enableCheckInImage env then
            (case generateCheckInImage env st of
               None \<Rightarrow> (None, [CallGenerateImage])
             | Some imagePath \<Rightarrow>
                 (uploadImageToBiliBili env imagePath, [CallGenerateImage, CallUploadImage imagePath]))
          else (None, []))"

text \<open>
  Lines 1016 to 1031 and 1036 to 1051: the compensation, the same in the \<open>else\<close> branch
  and in the \<open>catch\<close> block.
\<close>

definition rollbackIfSaved :: "Level \<Rightarrow> bool \<Rightarrow> string option \<Rightarrow> Level \<times> Event list" where
  "rollbackIfSaved db recordSaved authorId =
     (case authorId of
        None \<Rightarrow> (db, [])
      | Some a \<Rightarrow>
          if recordSaved then (snd (rollbackLastCheckIn db a), [CallRollback a]) else (db, []))"

definition postComment ::
  "Env \<Rightarrow> Level \<Rightarrow> int \<Rightarrow> string \<Rightarrow> DynamicCardItem \<Rightarrow> DynamicData option
     \<Rightarrow> bool \<times> Level \<times> Event list" where
  "postComment env db ty rid dynamicCard dynamicData =
     (case getCsrfToken (cookie env) of
        None \<Rightarrow> (False, db, [])
      | Some token \<Rightarrow>
          let authorId = (case dynamicData of Some d \<Rightarrow> extractAuthorId d | None \<Rightarrow> None);
              (analysed, evs1) = analysisStep env (checkImagesInDynamicCard dynamicCard)
          in case analysed of
               None \<Rightarrow> (False, db, evs1)
             | Some (cts, text) \<Rightarrow>
                 let (recordSaved, userStats, db1, evs2) =
                       saveCheckIn env db authorId dynamicData dynamicCard cts text;
                     (imageInfo, evs3) = checkInImageStep env userStats;
                     payload = \<lparr>oid = rid, type_p = ty, message = text, csrf = token,
                                pictures = imageInfo\<rparr>;
                     evs = evs1 @ evs2 @ evs3 @ [CallAddComment payload]
                 in case addComment env payload of
                      PostCode code \<Rightarrow>
                        if code = 0 then
                          (case authorId of
                             None \<Rightarrow> (True, db1, evs)
                           | Some a \<Rightarrow>
                               (case recordDailyComment (today env) (now env) db1 a of
                                  Some db2 \<Rightarrow> (True, db2, evs @ [CallRecordDaily a])
                                | None \<Rightarrow> (True, db1, evs @ [CallRecordDaily a])))
                        else
                          (let (db2, evs4) = rollbackIfSaved db1 recordSaved authorId
                           in (False, db2, evs @ evs4))
                    | PostThrows \<Rightarrow>
                        (let (db2, evs4) = rollbackIfSaved db1 recordSaved authorId
                         in (False, db2, evs @ evs4)))"

subsection \<open>\<open>checkIfUserCommentedAndPost\<close>\<close>

definition checkIfUserCommentedAndPost ::
  "Env \<Rightarrow> Level \<Rightarrow> int \<Rightarrow> string \<Rightarrow> DynamicCardItem \<Rightarrow> DynamicData option
     \<Rightarrow> bool \<times> Level \<times> Event list" where
  "checkIfUserCommentedAndPost env db ty rid dynamicCard dynamicData =
     (if length (checkImagesInDynamicCard dynamicCard) = 0 then (True, db, [])
      else if (case dynamicData of
                 None \<Rightarrow> False
               | Some d \<Rightarrow>
                   (case extractAuthorId d of
                      None \<Rightarrow> False
                    | Some a \<Rightarrow> hasUserCommentedToday (today env) db a))
      then (True, db, [])
      else
        (case getComments env ty rid of
           CommentsThrows \<Rightarrow> (False, db, [CallGetComments ty rid])
         | CommentsData comments \<Rightarrow>
             if (case comments of
                   None \<Rightarrow> False
                 | Some cs \<Rightarrow> alreadyCommented (uidToMonitor env) cs)
             then (True, db, [CallGetComments ty rid])
             else
               (let (ok, db1, evs) = postComment env db ty rid dynamicCard dynamicData
                in (ok, db1, CallGetComments ty rid # evs))))"

subsection \<open>\<open>processAtMessage\<close>\<close>

text \<open>
  The dynamic id of the URI, or the sentinel under which an unusable URI is marked as
  processed.
\<close>

definition extractDynamicId :: "string \<Rightarrow> string + string" where
  "extractDynamicId u =
     (if includes_str ''/opus/'' u then
        (case match_digits_after ''/opus/'' u of
           Some d \<Rightarrow> Inr d
         | None \<Rightarrow> Inl ''unparseable_opus_uri'')
      else if includes_str ''t.bilibili.com/'' u then
        (case match_digits_after ''t.bilibili.com/'' u of
           Some d \<Rightarrow> Inr d
         | None \<Rightarrow> Inl ''unparseable_uri'')
      else Inl ''invalid_uri'')"

text \<open>
  The ledger write of every terminal branch. An error of the store reaches the outer
  \<open>catch\<close> of \<open>processAtMessage\<close>, which logs it: the store is then as before.
\<close>

definition markProcessed :: "Env \<Rightarrow> AtMessage \<Rightarrow> string \<Rightarrow> Level \<Rightarrow> Level" where
  "markProcessed env atMessage did db =
     (case recordProcessedAtMessage db
             \<lparr>atMessageId = id_m atMessage, dynamicId_p = did, processedAt = now env,
              fromUser = nickname atMessage, uri_p = uri atMessage\<rparr> of
        Some db' \<Rightarrow> db'
      | None \<Rightarrow> db)"

text \<open>Lines 612 to 642: the opus endpoint for an opus URI, then the general endpoint.\<close>

definition fetchDynamicData :: "Env \<Rightarrow> string \<Rightarrow> string \<Rightarrow> DynamicData option \<times> Event list" where
  "fetchDynamicData env u did =
     (let (d1, evs1) = (if includes_str ''/opus/'' u
                        then (getOpusDetail env did, [CallOpusDetail did])
                        else (None, []))
      in case d1 of
           Some d \<Rightarrow> (Some d, evs1)
         | None \<Rightarrow> (getDynamicDetails env did, evs1 @ [CallDynamicDetails did]))"

text \<open>Lines 715 to 723: the card built from the detail.\<close>

definition dynamicCardOf :: "AtMessage \<Rightarrow> string \<Rightarrow> DynamicData \<Rightarrow> DynamicCardItem" where
  "dynamicCardOf atMessage did dynamicData =
     \<lparr>id_str = did,
      basic_c = (case basic dynamicData of
                   Some b \<Rightarrow> b
                 | None \<Rightarrow> \<lparr>comment_type = business_id atMessage, rid_str = did,
                             basic_field = Map.empty\<rparr>),
      modules_c = modules dynamicData\<rparr>"

definition processAtMessage :: "Env \<Rightarrow> Level \<Rightarrow> AtMessage \<Rightarrow> Level \<times> Event list" where
  "processAtMessage env db atMessage =
     (case extractDynamicId (uri atMessage) of
        Inl sentinel \<Rightarrow>
          (markProcessed env atMessage sentinel db, [CallRecordProcessed (id_m atMessage)])
      | Inr did \<Rightarrow>
          let (fetched, evs1) = fetchDynamicData env (uri atMessage) did
          in case fetched of
               None \<Rightarrow> (db, evs1)
             | Some dynamicData \<Rightarrow>
                 let createTime = createTimeOf dynamicData
                 in if truthy createTime \<and> now env - the createTime > oneDayMs
                    then (markProcessed env atMessage did db,
                          evs1 @ [CallRecordProcessed (id_m atMessage)])
                    else
                      let dynamicCard = dynamicCardOf atMessage did dynamicData;
                          commentType = (if comment_type (basic_c dynamicCard) \<noteq> 0
                                         then comment_type (basic_c dynamicCard)
                                         else business_id atMessage);
                          commentRid = (if rid_str (basic_c dynamicCard) \<noteq> []
                                        then rid_str (basic_c dynamicCard)
                                        else did);
                          (success, db1, evs2) =
                            checkIfUserCommentedAndPost env db commentType commentRid
                              dynamicCard (Some dynamicData)
                      in if success
                         then (markProcessed env atMessage did db1,
                               evs1 @ evs2 @ [CallRecordProcessed (id_m atMessage)])
                         else (db1, evs1 @ evs2))"

subsection \<open>\<open>checkAndComment\<close>\<close>

text \<open>The \<open>for\<close> loop over the feed: a notification found in the ledger is skipped.\<close>

fun processAll :: "Env \<Rightarrow> AtMessage list \<Rightarrow> Level \<Rightarrow> Level \<times> Call list" where
  "processAll env [] db = (db, [])"
| "processAll env (atMessage # rest) db =
     (if isAtMessageProcessed db (id_m atMessage) then processAll env rest db
      else
        let (db1, evs) = processAtMessage env db atMessage;
            (db2, calls) = processAll env rest db1
        in (db2, map (ForMessage (id_m atMessage)) evs @ calls))"

text \<open>
  One cycle. The flag \<open>isProcessing\<close> is an argument and a result: a cycle asked for
  while another runs does nothing, and a cycle that ran leaves the flag cleared.
\<close>

definition checkAndComment :: "Env \<Rightarrow> bool \<Rightarrow> Level \<Rightarrow> bool \<times> Level \<times> Call list" where
  "checkAndComment env isProcessing db =
     (if isProcessing then (True, db, [])
      else
        (case getAtFeed env of
           FeedThrows \<Rightarrow> (False, db, [FeedCall])
         | FeedItems items \<Rightarrow>
             (case items of
                None \<Rightarrow> (False, db, [FeedCall])
              | Some atMessages \<Rightarrow>
                  if length atMessages = 0 then (False, db, [FeedCall])
                  else
                    (let (db', calls) = processAll env atMessages db
                     in (False, db', FeedCall # calls)))))"

section \<open>Notions used in the statements\<close>

text \<open>How many entries of a category list carry the label \<open>l\<close>.\<close>

definition label_count :: "string \<Rightarrow> CloudType list \<Rightarrow> nat" where
  "label_count l cs = length (filter (\<lambda>c. type c = l) cs)"

text \<open>
  An ordinary label: a name under which \<open>Object.prototype\<close> defines nothing, so that a
  read of the histogram finds an own property or \<open>undefined\<close>.
\<close>

definition plain :: "string \<Rightarrow> bool" where
  "plain l = (l \<notin> set objectPrototypeFunctions \<and> l \<noteq> ''__proto__'')"

definition plain_labels :: "CheckInRecord \<Rightarrow> bool" where
  "plain_labels r = list_all (\<lambda>c. plain (type c)) (cloudTypes r)"

text \<open>
  The statistics objects that exist: those the store holds after the first append for an
  entity, after an append to statistics that exist, and after a rollback of statistics
  that exist and have a record.
\<close>

inductive built :: "UserStats \<Rightarrow> bool" where
  first: "built (jsonStats (updateStats nm r (initialStats nm r)))"
| append: "built st \<Longrightarrow> built (jsonStats (updateStats nm r st))"
| rollback: "built st \<Longrightarrow> checkInRecords st \<noteq> [] \<Longrightarrow> built (jsonStats (undoStats st))"

text \<open>
  The number under a label of the histogram, \<open>0\<close> where the label is absent; and the
  values a label can have in a histogram of counts: absent, or a strictly positive number.
\<close>

definition or0 :: "jsv option \<Rightarrow> int" where
  "or0 v = (case v of Some (Count c) \<Rightarrow> c | _ \<Rightarrow> 0)"

definition positive_or_absent :: "jsv option \<Rightarrow> bool" where
  "positive_or_absent v = (case v of None \<Rightarrow> True | Some (Count c) \<Rightarrow> 0 < c | Some _ \<Rightarrow> False)"

text \<open>
  An append followed at once by a rollback for the same entity, as \<open>postComment\<close> does
  when the post fails. \<open>None\<close>: the append raised.
\<close>

definition appendThenRollback ::
  "Level \<Rightarrow> string \<Rightarrow> string \<Rightarrow> CheckInRecord \<Rightarrow> (bool \<times> Level) option" where
  "appendThenRollback db u nm r =
     (case recordCheckIn db u nm r of
        None \<Rightarrow> None
      | Some db1 \<Rightarrow> Some (rollbackLastCheckIn db1 u))"

text \<open>
  A sequence of calls of the aggregator, for any entities. An append that raises leaves
  the store as it was.
\<close>

datatype stats_op = Append string string CheckInRecord | RollbackLast string

fun apply_op :: "stats_op \<Rightarrow> Level \<Rightarrow> Level" where
  "apply_op (Append u nm r) db = (case recordCheckIn db u nm r of None \<Rightarrow> db | Some db' \<Rightarrow> db')"
| "apply_op (RollbackLast u) db = snd (rollbackLastCheckIn db u)"

text \<open>The number a string of decimal digits denotes (the inverse of \<open>nat_str\<close>).\<close>

definition str_nat :: "string \<Rightarrow> nat" where
  "str_nat s = foldl (\<lambda>a c. 10 * a + (of_char c - 48)) 0 s"

text \<open>
  The number of actions the store records for an entity, \<open>0\<close> for an entity without
  statistics.
\<close>

definition totalActions :: "Level \<Rightarrow> string \<Rightarrow> int" where
  "totalActions db u = (case getUserStats db u of None \<Rightarrow> 0 | Some st \<Rightarrow> totalCheckIns st)"

section \<open>Sample data\<close>

definition cumulus :: CloudType where
  "cumulus = \<lparr>type = ''cumulus'', confidence = 9 / 10, description = None\<rparr>"

definition sample_record :: "int \<Rightarrow> CheckInRecord" where
  "sample_record ts =
     \<lparr>dynamicId = ''9'', timestamp = ts, cloudTypes = [cumulus], imageCount = 1,
      analysis = ''a fine cumulus''\<rparr>"

definition empty_db :: Level where
  "empty_db = \<lparr>kv = Map.empty, closed = False, put_raises = False\<rparr>"

definition stats_one :: UserStats where
  "stats_one =
     \<lparr>userName = ''alice'', totalCheckIns = 1, totalImages = 1,
      cloudTypeStats = [''cumulus'' \<mapsto> Count 1], firstCheckIn = 1, lastCheckIn = 1,
      checkInRecords = [sample_record 1]\<rparr>"

definition db_one :: Level where
  "db_one = \<lparr>kv = [user_key ''U1'' \<mapsto> VUserStats stats_one], closed = False, put_raises = False\<rparr>"

text \<open>An entity whose window holds exactly 100 records, with timestamps 0 to 99.\<close>

definition stats_full :: UserStats where
  "stats_full =
     \<lparr>userName = ''alice'', totalCheckIns = 100, totalImages = 100,
      cloudTypeStats = [''cumulus'' \<mapsto> Count 100], firstCheckIn = 0, lastCheckIn = 99,
      checkInRecords = map (\<lambda>n. sample_record (int n)) [0..<100]\<rparr>"

definition db_full :: Level where
  "db_full = \<lparr>kv = [user_key ''U1'' \<mapsto> VUserStats stats_full], closed = False, put_raises = False\<rparr>"

text \<open>
  The statistics of an entity after \<open>n\<close> appends of the sample record, with timestamps
  \<open>0\<close> to \<open>n - 1\<close>.
\<close>

definition stats_after :: "nat \<Rightarrow> UserStats" where
  "stats_after n =
     \<lparr>userName = ''alice'', totalCheckIns = int n, totalImages = int n,
      cloudTypeStats = [''cumulus'' \<mapsto> Count (int n)], firstCheckIn = 0, lastCheckIn = int n - 1,
      checkInRecords = map (\<lambda>k. sample_record (int k)) [0..<n]\<rparr>"

text \<open>The store of the entity with one record, on a medium that takes no new value.\<close>

definition db_no_put :: Level where
  "db_no_put = db_one\<lparr>put_raises := True\<rparr>"

text \<open>
  A record whose only category entry carries the label \<open>constructor\<close>. The analyzer takes
  the label from the answer of the recognition service as it comes.
\<close>

definition constructor_cloud :: CloudType where
  "constructor_cloud = \<lparr>type = ''constructor'', confidence = 9 / 10, description = None\<rparr>"

definition constructor_record :: CheckInRecord where
  "constructor_record =
     \<lparr>dynamicId = ''9'', timestamp = 2, cloudTypes = [constructor_cloud], imageCount = 1,
      analysis = ''a cloud''\<rparr>"

definition new_years_eve :: LocalDate where
  "new_years_eve = \<lparr>getFullYear = 2024, getMonth = 11, getDate = 31\<rparr>"

definition new_years_day :: LocalDate where
  "new_years_day = \<lparr>getFullYear = 2025, getMonth = 0, getDate = 1\<rparr>"

section \<open>Notions used in the proofs\<close>

text \<open>
  The keys under which the statistics and the daily marks live, and the relation between
  two states of the store that agree on every key outside a given class.
\<close>

definition is_stats_key :: "string \<Rightarrow> bool" where
  "is_stats_key k = (starts_with ''user:'' k \<or> starts_with ''record:'' k)"

definition is_daily_key :: "string \<Rightarrow> bool" where
  "is_daily_key k = starts_with ''daily_comment:'' k"

definition same_except :: "(string \<Rightarrow> bool) \<Rightarrow> Level \<Rightarrow> Level \<Rightarrow> bool" where
  "same_except touched db db' =
     (closed db' = closed db \<and> put_raises db' = put_raises db \<and>
      (\<forall>k. \<not> touched k \<longrightarrow> kv db' k = kv db k))"

definition authorOf :: "DynamicData option \<Rightarrow> string option" where
  "authorOf dd = (case dd of Some d \<Rightarrow> extractAuthorId d | None \<Rightarrow> None)"

section \<open>Sample notification, detail and collaborators\<close>

text \<open>
  A notification for the opus \<open>9\<close> of the author \<open>7\<close>, published two hours before
  \<open>now\<close>; the detail carries the given modules and the comment endpoint answers the
  given outcome.
\<close>

definition sample_message :: AtMessage where
  "sample_message =
     \<lparr>id_m = 42, nickname = ''bob'', uri = ''https://www.bilibili.com/opus/9'', business_id = 11\<rparr>"

definition author_module :: ModuleItem where
  "author_module =
     \<lparr>module_type = ''MODULE_TYPE_AUTHOR'', module_top_pics = None,
      module_content_paragraphs = None, module_dynamic_major = None,
      module_author = Some \<lparr>mid = Some 7, uid = None, name = ''alice'', pub_ts = Some 1000\<rparr>\<rparr>"

definition picture_module :: ModuleItem where
  "picture_module =
     \<lparr>module_type = ''MODULE_TYPE_DYNAMIC'', module_top_pics = None,
      module_content_paragraphs = None,
      module_dynamic_major = Some \<lparr>opus_pics = Some [\<lparr>url = ''http://i/1.jpg''\<rparr>], draw_items = None\<rparr>,
      module_author = None\<rparr>"

definition sample_detail :: "ModuleItem list \<Rightarrow> DynamicData" where
  "sample_detail ms =
     \<lparr>top_field = Map.empty,
      basic = Some \<lparr>comment_type = 11, rid_str = ''9'', basic_field = Map.empty\<rparr>,
      modules = Some (ModuleArray ms), top_uid = None, top_mid = None, desc_uname = []\<rparr>"

definition sample_env :: "ModuleItem list \<Rightarrow> PostResult \<Rightarrow> Env" where
  "sample_env ms outcome =
     \<lparr>cookie = ''SESSDATA=x; bili_jct=tok; y=z'', uidToMonitor = ''3493260607622030'',
      commentText = ''nice cloud'', enableCloudAnalysis = True, enableCheckInImage = False,
      now = 8200000, today = new_years_eve,
      getAtFeed = FeedItems (Some [sample_message]),
      getOpusDetail = (\<lambda>d. Some (sample_detail ms)),
      getDynamicDetails = (\<lambda>d. None),
      getComments = (\<lambda>t r. CommentsData (Some [])),
      analyzeMultipleImagesWithTypes = (\<lambda>us. Some ([cumulus], ''a fine cumulus'')),
      generateCheckInImage = (\<lambda>st. None),
      uploadImageToBiliBili = (\<lambda>path. None),
      addComment = (\<lambda>payload. outcome)\<rparr>"

definition sample_payload :: Payload where
  "sample_payload =
     \<lparr>oid = ''9'', type_p = 11, message = ''a fine cumulus'', csrf = ''tok'', pictures = None\<rparr>"

definition failing_env :: Env where
  "failing_env = sample_env [author_module, picture_module] (PostCode (- 101))"

definition passing_env :: Env where
  "passing_env = sample_env [author_module] (PostCode 0)"

text \<open>A second notification, with a URI of no known shape, and a feed with both.\<close>

definition other_message :: AtMessage where
  "other_message = \<lparr>id_m = 43, nickname = ''carol'', uri = ''nonsense'', business_id = 11\<rparr>"

definition two_message_env :: Env where
  "two_message_env = failing_env\<lparr>getAtFeed := FeedItems (Some [sample_message, other_message])\<rparr>"

text \<open>A ledger that already holds the notification 42.\<close>

definition db_processed :: Level where
  "db_processed =
     \<lparr>kv = [processed_key 42 \<mapsto>
              VProcessed \<lparr>atMessageId = 42, dynamicId_p = ''9'', processedAt = 1, fromUser = ''bob'',
                          uri_p = ''https://www.bilibili.com/opus/9''\<rparr>],
      closed = False, put_raises = False\<rparr>"

section \<open>Lemmas about the store and the statistics\<close>

lemma label_count_simps [simp]:
  "label_count l [] = 0"
  "label_count l (c # cs) = (if type c = l then Suc (label_count l cs) else label_count l cs)"
  by (simp_all add: label_count_def)

lemma label_count_pos: "label_count l cs \<noteq> 0 \<Longrightarrow> \<exists>c \<in> set cs. type c = l"
  by (induction cs) (auto split: if_splits)

subsection \<open>JSON\<close>

lemma toJSON_idem [simp]: "toJSON (toJSON v) = toJSON v"
  by (cases v) simp_all

lemma map_toJSON_idem [simp]: "map_option toJSON (map_option toJSON x) = map_option toJSON x"
  by (cases x) simp_all

lemma jsonStats_simps [simp]:
  "userName (jsonStats st) = userName st"
  "totalCheckIns (jsonStats st) = totalCheckIns st"
  "totalImages (jsonStats st) = totalImages st"
  "firstCheckIn (jsonStats st) = firstCheckIn st"
  "lastCheckIn (jsonStats st) = lastCheckIn st"
  "checkInRecords (jsonStats st) = checkInRecords st"
  "cloudTypeStats (jsonStats st) l = map_option toJSON (cloudTypeStats st l)"
  by (simp_all add: jsonStats_def)

lemma jsonStats_idem [simp]: "jsonStats (jsonStats st) = jsonStats st"
  by (simp add: jsonStats_def)

lemma jsonStats_frame: "jsonStats st = st\<lparr>cloudTypeStats := cloudTypeStats (jsonStats st)\<rparr>"
  by (simp add: jsonStats_def)

lemma jsonStats_fixed: "jsonStats st = st \<Longrightarrow> map_option toJSON (cloudTypeStats st l) = cloudTypeStats st l"
  using jsonStats_simps(7)[of st l] by simp

lemma positive_or_absent_cases:
  "positive_or_absent v \<longleftrightarrow> v = None \<or> (\<exists>c. v = Some (Count c) \<and> 0 < c)"
  by (auto simp: positive_or_absent_def split: option.splits jsv.splits)

lemma positive_or_absent_json: "positive_or_absent v \<Longrightarrow> map_option toJSON v = v"
  by (auto simp: positive_or_absent_cases)

subsection \<open>The histogram under ordinary labels\<close>

lemma getProp_plain: "plain l \<Longrightarrow> getProp h l = (case h l of Some v \<Rightarrow> Own v | None \<Rightarrow> Undefined)"
  by (simp add: getProp_def plain_def split: option.splits)

lemma setProp_plain: "plain l \<Longrightarrow> setProp h l v = h(l \<mapsto> v)"
  by (simp add: setProp_def plain_def)

lemma setProp_other: "k \<noteq> l \<Longrightarrow> setProp h l v k = h k"
  by (simp add: setProp_def)

lemma addCloud_other: "type c \<noteq> l \<Longrightarrow> addCloud c h l = h l"
  by (simp add: addCloud_def Let_def setProp_other)

lemma removeCloud_other: "type c \<noteq> l \<Longrightarrow> removeCloud c h l = h l"
  by (simp add: removeCloud_def Let_def setProp_other)

lemma fold_addCloud_untouched: "label_count l cs = 0 \<Longrightarrow> fold addCloud cs h l = h l"
  by (induction cs arbitrary: h) (simp_all add: addCloud_other split: if_splits)

lemma fold_removeCloud_untouched: "label_count l cs = 0 \<Longrightarrow> fold removeCloud cs h l = h l"
  by (induction cs arbitrary: h) (simp_all add: removeCloud_other split: if_splits)

lemma addCloud_plain:
  assumes "plain (type c)" "positive_or_absent (h (type c))"
  shows "addCloud c h (type c) = Some (Count (or0 (h (type c)) + 1))"
  using assms
  by (auto simp: addCloud_def Let_def getProp_plain setProp_plain or0_def positive_or_absent_cases)

lemma removeCloud_plain:
  assumes "plain (type c)" "positive_or_absent (h (type c))"
  shows "removeCloud c h (type c) =
           (if or0 (h (type c)) \<le> 1 then None else Some (Count (or0 (h (type c)) - 1)))"
  using assms
  by (auto simp: removeCloud_def Let_def getProp_plain setProp_plain or0_def positive_or_absent_cases)

lemma fold_addCloud_plain:
  assumes "plain l" "positive_or_absent (h l)"
  shows "fold addCloud cs h l =
           (if label_count l cs = 0 then h l else Some (Count (or0 (h l) + int (label_count l cs))))"
  using assms(2)
proof (induction cs arbitrary: h)
  case Nil
  show ?case by simp
next
  case (Cons a cs)
  show ?case
  proof (cases "type a = l")
    case True
    have 1: "addCloud a h l = Some (Count (or0 (h l) + 1))"
      using addCloud_plain[of a h] assms(1) Cons.prems True by simp
    have "0 \<le> or0 (h l)"
      using Cons.prems by (auto simp: positive_or_absent_cases or0_def)
    then have 2: "positive_or_absent (addCloud a h l)"
      using 1 by (simp add: positive_or_absent_cases)
    show ?thesis
      using Cons.IH[of "addCloud a h", OF 2] 1 True by (simp add: or0_def)
  next
    case False
    then have 1: "addCloud a h l = h l" by (rule addCloud_other)
    with Cons.prems have 2: "positive_or_absent (addCloud a h l)" by simp
    show ?thesis
      using Cons.IH[of "addCloud a h", OF 2] 1 False by simp
  qed
qed

lemma fold_removeCloud_plain:
  assumes "plain l" "positive_or_absent (h l)"
  shows "fold removeCloud cs h l =
           (if label_count l cs = 0 then h l
            else if or0 (h l) \<le> int (label_count l cs) then None
            else Some (Count (or0 (h l) - int (label_count l cs))))"
  using assms(2)
proof (induction cs arbitrary: h)
  case Nil
  show ?case by simp
next
  case (Cons a cs)
  show ?case
  proof (cases "type a = l")
    case True
    have 1: "removeCloud a h l = (if or0 (h l) \<le> 1 then None else Some (Count (or0 (h l) - 1)))"
      using removeCloud_plain[of a h] assms(1) Cons.prems True by simp
    then have 2: "positive_or_absent (removeCloud a h l)"
      by (simp add: positive_or_absent_cases)
    have 3: "0 \<le> or0 (h l)"
      using Cons.prems by (auto simp: positive_or_absent_cases or0_def)
    show ?thesis
    proof (cases "or0 (h l) \<le> 1")
      case le: True
      with 1 have "removeCloud a h l = None" by simp
      then show ?thesis
        using Cons.IH[of "removeCloud a h", OF 2] True le by (simp add: or0_def)
    next
      case gt: False
      with 1 have "removeCloud a h l = Some (Count (or0 (h l) - 1))" by simp
      then show ?thesis
        using Cons.IH[of "removeCloud a h", OF 2] True gt by (auto simp: or0_def)
    qed
  next
    case False
    then have 1: "removeCloud a h l = h l" by (rule removeCloud_other)
    with Cons.prems have 2: "positive_or_absent (removeCloud a h l)" by simp
    show ?thesis
      using Cons.IH[of "removeCloud a h", OF 2] 1 False by simp
  qed
qed

lemma fold_addCloud_keeps:
  assumes "plain l" "positive_or_absent (h l)"
  shows "positive_or_absent (fold addCloud cs h l)"
proof -
  have "0 \<le> or0 (h l)"
    using assms(2) by (auto simp: positive_or_absent_cases or0_def)
  then show ?thesis
    using assms(2) by (simp add: fold_addCloud_plain[of l h, OF assms] positive_or_absent_cases)
qed

lemma fold_removeCloud_keeps:
  assumes "plain l" "positive_or_absent (h l)"
  shows "positive_or_absent (fold removeCloud cs h l)"
  using assms(2) by (simp add: fold_removeCloud_plain[of l h, OF assms] positive_or_absent_cases)

text \<open>
  Removing the labels of a record from a histogram to which they were just added, with
  the write and the read of the store in between, gives the histogram back.
\<close>

lemma remove_after_add:
  assumes labels: "list_all (\<lambda>c. plain (type c)) cs"
    and pos: "\<forall>l. plain l \<longrightarrow> positive_or_absent (h l)"
    and json: "\<forall>l. map_option toJSON (h l) = h l"
  shows "map_option toJSON (fold removeCloud cs (\<lambda>k. map_option toJSON (fold addCloud cs h k)) l) = h l"
proof (cases "label_count l cs = 0")
  case True
  then show ?thesis
    using json by (simp add: fold_removeCloud_untouched fold_addCloud_untouched)
next
  case False
  then obtain c where "c \<in> set cs" "type c = l" using label_count_pos by blast
  with labels have pl: "plain l" by (auto simp: list_all_iff)
  with pos have pa: "positive_or_absent (h l)" by simp
  let ?h1 = "\<lambda>k. map_option toJSON (fold addCloud cs h k)"
  have added: "fold addCloud cs h l = Some (Count (or0 (h l) + int (label_count l cs)))"
    using False by (simp add: fold_addCloud_plain[of l h, OF pl pa])
  then have h1: "?h1 l = Some (Count (or0 (h l) + int (label_count l cs)))" by simp
  have "0 \<le> or0 (h l)"
    using pa by (auto simp: positive_or_absent_cases or0_def)
  with False have pa1: "positive_or_absent (?h1 l)"
    unfolding h1 by (simp add: positive_or_absent_cases)
  have "fold removeCloud cs ?h1 l = h l"
    unfolding fold_removeCloud_plain[of l ?h1, OF pl pa1] h1
    using False pa by (auto simp: positive_or_absent_cases or0_def)
  then show ?thesis using json by simp
qed

subsection \<open>The store\<close>

lemmas key_defs = user_key_def record_key_def processed_key_def daily_key_def

lemma get_user_closed [simp]: "closed db \<Longrightarrow> get_user db u = None"
  by (simp add: get_user_def db_get_def)

lemma get_user_SomeD: "get_user db u = Some st \<Longrightarrow> \<not> closed db \<and> kv db (user_key u) = Some (VUserStats st)"
  by (auto simp: get_user_def db_get_def split: if_splits option.splits jsval.splits)

lemma key_neq [simp]:
  "record_key u t \<noteq> user_key u'" "user_key u' \<noteq> record_key u t"
  "processed_key n \<noteq> user_key u'" "user_key u' \<noteq> processed_key n"
  "daily_key a d \<noteq> user_key u'" "user_key u' \<noteq> daily_key a d"
  "processed_key n \<noteq> record_key u t" "record_key u t \<noteq> processed_key n"
  "daily_key a d \<noteq> record_key u t" "record_key u t \<noteq> daily_key a d"
  "daily_key a d \<noteq> processed_key n" "processed_key n \<noteq> daily_key a d"
  by (simp_all add: key_defs)

lemma user_key_inj [simp]: "user_key u = user_key u' \<longleftrightarrow> u = u'"
  by (simp add: user_key_def)

lemma get_user_upd_same:
  "\<not> closed db \<Longrightarrow> get_user (db\<lparr>kv := m(user_key u \<mapsto> VUserStats st)\<rparr>) u = Some st"
  by (simp add: get_user_def db_get_def)

lemma get_user_upd_other:
  "k \<noteq> user_key u' \<Longrightarrow> get_user (db\<lparr>kv := m(k := x)\<rparr>) u' = get_user (db\<lparr>kv := m\<rparr>) u'"
  by (simp add: get_user_def db_get_def)

lemma recordCheckIn_eq:
  "\<not> failing db \<Longrightarrow>
   recordCheckIn db u nm r =
     Some (db\<lparr>kv := (kv db)(user_key u \<mapsto>
                 VUserStats (jsonStats (updateStats nm r
                   (case get_user db u of Some found \<Rightarrow> found | None \<Rightarrow> initialStats nm r))),
               record_key u (timestamp r) \<mapsto> VRecord r)\<rparr>)"
  by (simp add: recordCheckIn_def db_put_def failing_def Let_def)

lemma recordCheckIn_failing: "failing db \<Longrightarrow> recordCheckIn db u nm r = None"
  by (simp add: recordCheckIn_def db_put_def failing_def Let_def)

lemma recordCheckIn_SomeD:
  assumes "recordCheckIn db u nm r = Some db'"
  shows "\<not> failing db" "\<not> failing db'"
proof -
  show nf: "\<not> failing db" using assms recordCheckIn_failing by fastforce
  show "\<not> failing db'" using assms nf by (auto simp: recordCheckIn_eq failing_def)
qed

lemma get_user_recordCheckIn:
  assumes "recordCheckIn db u nm r = Some db'"
  shows "get_user db' u' =
           (if u' = u
            then Some (jsonStats (updateStats nm r
                   (case get_user db u of Some found \<Rightarrow> found | None \<Rightarrow> initialStats nm r)))
            else get_user db u')"
proof -
  have nf: "\<not> failing db" using assms by (rule recordCheckIn_SomeD)
  then have nc: "\<not> closed db" by (simp add: failing_def)
  show ?thesis
    using assms nf nc by (auto simp: recordCheckIn_eq get_user_upd_other get_user_upd_same)
qed

lemma rollback_eq:
  assumes "get_user db u = Some st" "checkInRecords st \<noteq> []" "\<not> put_raises db"
  shows "rollbackLastCheckIn db u =
           (True, db\<lparr>kv := ((kv db)(record_key u (timestamp (last (checkInRecords st))) := None))
                              (user_key u \<mapsto> VUserStats (jsonStats (undoStats st)))\<rparr>)"
  using assms get_user_SomeD[OF assms(1)]
  by (simp add: rollbackLastCheckIn_def db_del_def db_put_def Let_def)

text \<open>
  The last \<open>put\<close> of the rollback raises: the answer is \<open>false\<close>, and the single record is
  already deleted.
\<close>

lemma rollback_put_raises:
  assumes "get_user db u = Some st" "checkInRecords st \<noteq> []" "put_raises db"
  shows "rollbackLastCheckIn db u =
           (False, db\<lparr>kv := (kv db)(record_key u (timestamp (last (checkInRecords st))) := None)\<rparr>)"
  using assms get_user_SomeD[OF assms(1)]
  by (simp add: rollbackLastCheckIn_def db_del_def db_put_def Let_def)

lemma rollback_nothing:
  "get_user db u = None \<or> (\<exists>st. get_user db u = Some st \<and> checkInRecords st = []) \<Longrightarrow>
   rollbackLastCheckIn db u = (False, db)"
  by (auto simp: rollbackLastCheckIn_def)

lemma rollback_false_iff:
  "fst (rollbackLastCheckIn db u) = False \<longleftrightarrow>
     (getUserStats db u = None \<or> (\<exists>st. getUserStats db u = Some st \<and> checkInRecords st = []) \<or>
      put_raises db)"
proof (cases "get_user db u")
  case None
  then show ?thesis by (simp add: rollback_nothing getUserStats_def)
next
  case (Some st)
  show ?thesis
  proof (cases "checkInRecords st = []")
    case True
    with Some show ?thesis by (simp add: rollback_nothing getUserStats_def)
  next
    case False
    show ?thesis
    proof (cases "put_raises db")
      case True
      with Some False show ?thesis by (simp add: rollback_put_raises getUserStats_def)
    next
      case nr: False
      with Some False show ?thesis by (simp add: rollback_eq getUserStats_def)
    qed
  qed
qed

lemma get_user_rollback:
  assumes "get_user db u = Some st" "checkInRecords st \<noteq> []" "\<not> put_raises db"
  shows "get_user (snd (rollbackLastCheckIn db u)) u' =
           (if u' = u then Some (jsonStats (undoStats st)) else get_user db u')"
proof -
  have nc: "\<not> closed db" using get_user_SomeD[OF assms(1)] by simp
  show ?thesis
    using nc by (auto simp: rollback_eq[OF assms] get_user_upd_other get_user_upd_same)
qed

text \<open>A rollback that answers \<open>false\<close> leaves the statistics of every entity as they were.\<close>

lemma get_user_rollback_False:
  assumes "fst (rollbackLastCheckIn db u) = False"
  shows "get_user (snd (rollbackLastCheckIn db u)) u' = get_user db u'"
proof (cases "get_user db u")
  case None
  then show ?thesis by (simp add: rollback_nothing)
next
  case (Some st)
  show ?thesis
  proof (cases "checkInRecords st = []")
    case True
    with Some show ?thesis by (simp add: rollback_nothing)
  next
    case False
    have pr: "put_raises db"
      using assms[unfolded rollback_false_iff] Some False by (auto simp: getUserStats_def)
    have "get_user (db\<lparr>kv := (kv db)(record_key u (timestamp (last (checkInRecords st))) := None)\<rparr>) u'
            = get_user (db\<lparr>kv := kv db\<rparr>) u'"
      by (rule get_user_upd_other) simp
    then show ?thesis by (simp add: rollback_put_raises[OF Some False pr])
  qed
qed

subsection \<open>The statistics object\<close>

lemma slice_last_100: "100 < length xs \<Longrightarrow> slice_from (- 100) xs = drop (length xs - 100) xs"
  by (simp add: slice_from_def nat_diff_distrib')

lemma updateStats_records:
  "checkInRecords (updateStats nm r st) =
     drop (length (checkInRecords st) + 1 - 100) (checkInRecords st @ [r])"
  by (simp add: updateStats_def Let_def slice_last_100 del: drop_append)

lemma updateStats_length: "length (checkInRecords (updateStats nm r st)) \<le> 100"
  unfolding updateStats_records by simp

lemma updateStats_fields:
  "userName (updateStats nm r st) = nm"
  "totalCheckIns (updateStats nm r st) = totalCheckIns st + 1"
  "totalImages (updateStats nm r st) = totalImages st + imageCount r"
  "lastCheckIn (updateStats nm r st) = timestamp r"
  "firstCheckIn (updateStats nm r st) = firstCheckIn st"
  "cloudTypeStats (updateStats nm r st) = fold addCloud (cloudTypes r) (cloudTypeStats st)"
  by (simp_all add: updateStats_def Let_def)

lemma undoStats_fields:
  "userName (undoStats st) = userName st"
  "totalCheckIns (undoStats st) = totalCheckIns st - 1"
  "totalImages (undoStats st) = totalImages st - imageCount (last (checkInRecords st))"
  "firstCheckIn (undoStats st) = firstCheckIn st"
  "checkInRecords (undoStats st) = butlast (checkInRecords st)"
  "cloudTypeStats (undoStats st) =
     fold removeCloud (cloudTypes (last (checkInRecords st))) (cloudTypeStats st)"
  by (simp_all add: undoStats_def Let_def)

lemma updateStats_last: "last (checkInRecords (updateStats nm r st)) = r"
  unfolding updateStats_records by (simp add: last_drop)

lemma updateStats_nonempty: "checkInRecords (updateStats nm r st) \<noteq> []"
  unfolding updateStats_records by simp

lemma updateStats_butlast:
  "butlast (checkInRecords (updateStats nm r st)) =
     drop (length (checkInRecords st) + 1 - 100) (checkInRecords st)"
  unfolding updateStats_records by (simp add: butlast_drop del: drop_append)

lemma undoStats_frame:
  "undoStats st = st\<lparr>totalCheckIns := totalCheckIns (undoStats st),
                      totalImages := totalImages (undoStats st),
                      cloudTypeStats := cloudTypeStats (undoStats st),
                      lastCheckIn := lastCheckIn (undoStats st),
                      checkInRecords := checkInRecords (undoStats st)\<rparr>"
  by (simp add: undoStats_def Let_def)

lemma rollback_TrueD:
  assumes "rollbackLastCheckIn db u = (True, db')"
  shows "\<exists>st. get_user db u = Some st \<and> checkInRecords st \<noteq> [] \<and>
              get_user db' u = Some (jsonStats (undoStats st))"
proof -
  from assms have "fst (rollbackLastCheckIn db u) \<noteq> False" by simp
  then obtain st where st: "get_user db u = Some st" "checkInRecords st \<noteq> []" "\<not> put_raises db"
    unfolding rollback_false_iff getUserStats_def by auto
  have "get_user db' u = Some (jsonStats (undoStats st))"
    using get_user_rollback[OF st, of u] assms by simp
  with st show ?thesis by blast
qed

text \<open>
  An append and the rollback that follows it at once, on the statistics objects: the
  totals are those before the append, for every length of the window; of the records the
  oldest is missing when the window was full.
\<close>

lemma undo_update:
  "totalCheckIns (undoStats (jsonStats (updateStats nm r st))) = totalCheckIns st"
  "totalImages (undoStats (jsonStats (updateStats nm r st))) = totalImages st"
  "checkInRecords (undoStats (jsonStats (updateStats nm r st))) =
     drop (length (checkInRecords st) + 1 - 100) (checkInRecords st)"
  "userName (undoStats (jsonStats (updateStats nm r st))) = nm"
  "firstCheckIn (undoStats (jsonStats (updateStats nm r st))) = firstCheckIn st"
  by (simp_all add: undoStats_fields updateStats_fields updateStats_last updateStats_butlast)

lemma undo_update_totals:
  "totalCheckIns (jsonStats (undoStats (jsonStats (updateStats nm r st)))) = totalCheckIns st"
  "totalImages (jsonStats (undoStats (jsonStats (updateStats nm r st)))) = totalImages st"
  by (simp_all add: undo_update)

lemma undo_update_histogram:
  assumes "plain_labels r"
    and "\<forall>l. plain l \<longrightarrow> positive_or_absent (cloudTypeStats st l)"
    and "jsonStats st = st"
  shows "cloudTypeStats (jsonStats (undoStats (jsonStats (updateStats nm r st)))) = cloudTypeStats st"
proof (rule ext)
  fix l
  have eq: "cloudTypeStats (jsonStats (updateStats nm r st)) =
              (\<lambda>k. map_option toJSON (fold addCloud (cloudTypes r) (cloudTypeStats st) k))"
    by (rule ext) (simp add: updateStats_fields)
  have "\<forall>l. map_option toJSON (cloudTypeStats st l) = cloudTypeStats st l"
    using jsonStats_fixed[OF assms(3)] by simp
  with assms(1,2)
  show "cloudTypeStats (jsonStats (undoStats (jsonStats (updateStats nm r st)))) l = cloudTypeStats st l"
    by (simp add: undoStats_fields updateStats_last eq remove_after_add plain_labels_def)
qed

subsection \<open>The statistics that exist\<close>

lemma built_json: "built st \<Longrightarrow> jsonStats st = st"
  by (induction rule: built.induct) simp_all

lemma built_length: "built st \<Longrightarrow> length (checkInRecords st) \<le> 100"
  by (induction rule: built.induct) (simp_all add: updateStats_length undoStats_fields)

lemma built_plain: "built st \<Longrightarrow> plain l \<Longrightarrow> positive_or_absent (cloudTypeStats st l)"
proof (induction rule: built.induct)
  case (first nm r)
  have "positive_or_absent (fold addCloud (cloudTypes r) Map.empty l)"
    using first by (intro fold_addCloud_keeps) (simp_all add: positive_or_absent_def)
  then show ?case
    by (simp add: updateStats_fields initialStats_def positive_or_absent_json)
next
  case (append st nm r)
  then have "positive_or_absent (fold addCloud (cloudTypes r) (cloudTypeStats st) l)"
    by (intro fold_addCloud_keeps) simp_all
  then show ?case
    by (simp add: updateStats_fields positive_or_absent_json)
next
  case (rollback st)
  then have "positive_or_absent
               (fold removeCloud (cloudTypes (last (checkInRecords st))) (cloudTypeStats st) l)"
    by (intro fold_removeCloud_keeps) simp_all
  then show ?case
    by (simp add: undoStats_fields positive_or_absent_json)
qed

text \<open>
  Every statistics object of a store that a sequence of appends and rollbacks fills,
  starting from the empty store, is one of those.
\<close>

lemma apply_op_built:
  assumes "\<forall>e st. get_user db e = Some st \<longrightarrow> built st"
  shows "\<forall>e st. get_user (apply_op x db) e = Some st \<longrightarrow> built st"
proof (cases x)
  case (Append u nm r)
  show ?thesis
  proof (cases "recordCheckIn db u nm r")
    case None
    with Append assms show ?thesis by simp
  next
    case (Some db')
    show ?thesis
      using assms Append Some get_user_recordCheckIn[OF Some]
      by (auto simp: built.first built.append split: option.splits if_splits)
  qed
next
  case (RollbackLast u)
  show ?thesis
  proof (cases "fst (rollbackLastCheckIn db u)")
    case False
    then show ?thesis
      using assms RollbackLast get_user_rollback_False[of db u] by simp
  next
    case True
    then obtain st where st: "get_user db u = Some st" "checkInRecords st \<noteq> []" "\<not> put_raises db"
      using rollback_false_iff[of db u] by (auto simp: getUserStats_def)
    show ?thesis
      using assms RollbackLast st get_user_rollback[OF st]
      by (auto simp: built.rollback split: if_splits)
  qed
qed

lemma fold_apply_op_built:
  "\<forall>e st. get_user db e = Some st \<longrightarrow> built st \<Longrightarrow>
   \<forall>e st. get_user (fold apply_op ops db) e = Some st \<longrightarrow> built st"
proof (induction ops arbitrary: db)
  case Nil
  then show ?case by simp
next
  case (Cons x ops)
  from Cons.prems have "\<forall>e st. get_user (apply_op x db) e = Some st \<longrightarrow> built st"
    by (rule apply_op_built)
  then show ?case using Cons.IH by simp
qed

lemma str_nat_snoc: "str_nat (s @ [c]) = 10 * str_nat s + (of_char c - 48)"
  by (simp add: str_nat_def)

lemma lt10_cases: "d < 10 \<Longrightarrow> d \<in> {0, 1, 2, 3, 4, 5, 6, 7, 8, 9::nat}"
  by auto

lemma of_char_digit: "d < 10 \<Longrightarrow> of_char (digit_char d) = 48 + d"
  using lt10_cases[of d] by (auto simp: digit_char_def)

lemma str_nat_nat_str: "str_nat (nat_str n) = n"
proof (induction n rule: nat_str.induct)
  case (1 n)
  show ?case
  proof (cases "n < 10")
    case True
    then show ?thesis by (subst nat_str.simps) (simp add: str_nat_def of_char_digit)
  next
    case False
    with 1 have "str_nat (nat_str (n div 10)) = n div 10" by simp
    with False show ?thesis
      by (subst nat_str.simps) (simp add: str_nat_snoc of_char_digit)
  qed
qed

lemma str_nat_zeros: "str_nat (replicate k CHR ''0'' @ s) = str_nat s"
  by (induction k) (simp_all add: str_nat_def)

lemma str_nat_padStart2: "str_nat (padStart2 (nat_str n)) = n"
  by (simp add: padStart2_def str_nat_zeros str_nat_nat_str)

lemma digit_char_not_dash: "d < 10 \<Longrightarrow> digit_char d \<noteq> CHR ''-''"
proof
  assume "d < 10" "digit_char d = CHR ''-''"
  then have "of_char (digit_char d) = (of_char CHR ''-'' :: nat)" by simp
  with \<open>d < 10\<close> show False by (simp add: of_char_digit)
qed

lemma nat_str_no_dash: "CHR ''-'' \<notin> set (nat_str n)"
proof (induction n rule: nat_str.induct)
  case (1 n)
  show ?case
  proof (cases "n < 10")
    case True
    then show ?thesis using digit_char_not_dash[of n] by (subst nat_str.simps) auto
  next
    case False
    with 1 have "CHR ''-'' \<notin> set (nat_str (n div 10))" by simp
    moreover have "digit_char (n mod 10) \<noteq> CHR ''-''" by (rule digit_char_not_dash) simp
    ultimately show ?thesis using False by (subst nat_str.simps) auto
  qed
qed

lemma padStart2_no_dash: "CHR ''-'' \<notin> set (padStart2 (nat_str n))"
  using nat_str_no_dash[of n] by (auto simp: padStart2_def)

lemma split_at_sep:
  "c \<notin> set a \<Longrightarrow> c \<notin> set b \<Longrightarrow> a @ c # r = b @ c # r' \<Longrightarrow> a = b \<and> r = r'"
proof (induction a arbitrary: b)
  case Nil
  then show ?case by (cases b) auto
next
  case (Cons x a)
  then show ?case by (cases b) auto
qed

lemma dateKey_inj: "dateKey d = dateKey d' \<Longrightarrow> d = d'"
proof -
  assume eq: "dateKey d = dateKey d'"
  let ?y = "nat_str (getFullYear d)" and ?y' = "nat_str (getFullYear d')"
  let ?m = "padStart2 (nat_str (getMonth d + 1))" and ?m' = "padStart2 (nat_str (getMonth d' + 1))"
  let ?t = "padStart2 (nat_str (getDate d))" and ?t' = "padStart2 (nat_str (getDate d'))"
  from eq have e1: "?y @ CHR ''-'' # (?m @ CHR ''-'' # ?t) = ?y' @ CHR ''-'' # (?m' @ CHR ''-'' # ?t')"
    by (simp add: dateKey_def)
  have y: "?y = ?y'" and e2: "?m @ CHR ''-'' # ?t = ?m' @ CHR ''-'' # ?t'"
    using split_at_sep[OF nat_str_no_dash nat_str_no_dash e1] by simp_all
  have m: "?m = ?m'" and t: "?t = ?t'"
    using split_at_sep[OF padStart2_no_dash padStart2_no_dash e2] by simp_all
  have "getFullYear d = getFullYear d'"
    using arg_cong[OF y, of str_nat] by (simp add: str_nat_nat_str)
  moreover have "getMonth d = getMonth d'"
    using arg_cong[OF m, of str_nat] by (simp add: str_nat_padStart2)
  moreover have "getDate d = getDate d'"
    using arg_cong[OF t, of str_nat] by (simp add: str_nat_padStart2)
  ultimately show "d = d'" by simp
qed

lemma daily_key_inj: "daily_key a d = daily_key a d' \<longleftrightarrow> d = d'"
  using dateKey_inj by (auto simp: daily_key_def)

section \<open>Lemmas about the sample data\<close>

lemma getUserStats_db_one: "getUserStats db_one ''U1'' = Some stats_one"
  by (simp add: getUserStats_def get_user_def db_get_def db_one_def)

lemma getUserStats_db_full: "getUserStats db_full ''U1'' = Some stats_full"
  by (simp add: getUserStats_def get_user_def db_get_def db_full_def)

lemma getUserStats_empty_db: "getUserStats empty_db u = None"
  by (simp add: getUserStats_def get_user_def db_get_def empty_db_def)

lemma sample_not_failing [simp]:
  "\<not> failing empty_db" "\<not> failing db_one" "\<not> failing db_full"
  by (simp_all add: failing_def empty_db_def db_one_def db_full_def)

lemma plain_cumulus: "plain ''cumulus''"
  by (simp add: plain_def objectPrototypeFunctions_def)

lemma plain_sample_record: "plain_labels (sample_record ts)"
  by (simp add: plain_labels_def sample_record_def cumulus_def plain_cumulus)

lemma addCloud_cumulus:
  "addCloud cumulus Map.empty = [''cumulus'' \<mapsto> Count 1]"
  "0 < n \<Longrightarrow> addCloud cumulus [''cumulus'' \<mapsto> Count n] = [''cumulus'' \<mapsto> Count (1 + n)]"
  using plain_cumulus
  by (simp_all add: addCloud_def Let_def cumulus_def getProp_plain setProp_plain add.commute)

lemma constructor_record_simps:
  "cloudTypes constructor_record = [constructor_cloud]" "type constructor_cloud = ''constructor''"
  "timestamp constructor_record = 2" "imageCount constructor_record = 1"
  by (simp_all add: constructor_record_def constructor_cloud_def)

lemma addCloud_constructor:
  "addCloud constructor_cloud Map.empty = [''constructor'' \<mapsto> Text (FunctionSource ''Object'') 1]"
  "addCloud constructor_cloud [''cumulus'' \<mapsto> Count 1] =
     [''cumulus'' \<mapsto> Count 1, ''constructor'' \<mapsto> Text (FunctionSource ''Object'') 1]"
  by (simp_all add: addCloud_def Let_def constructor_record_simps getProp_def setProp_def
        objectPrototypeFunctions_def)

lemma removeCloud_constructor:
  "removeCloud constructor_cloud [''constructor'' \<mapsto> Text b n] = [''constructor'' \<mapsto> NaN]"
  by (simp add: removeCloud_def Let_def constructor_record_simps getProp_def setProp_def)

lemma json_cumulus:
  "(\<lambda>l. map_option toJSON (if l = ''cumulus'' then Some (Count n) else None)) = [''cumulus'' \<mapsto> Count n]"
  by (rule ext) simp

lemma stats_after_first:
  "jsonStats (updateStats ''alice'' (sample_record 0) (initialStats ''alice'' (sample_record 0)))
     = stats_after 1"
  by (simp add: jsonStats_def updateStats_def initialStats_def Let_def stats_after_def
        sample_record_def addCloud_cumulus json_cumulus)

lemma stats_after_next:
  assumes "0 < n" "n < 100"
  shows "jsonStats (updateStats ''alice'' (sample_record (int n)) (stats_after n)) = stats_after (Suc n)"
  using assms
  by (simp add: jsonStats_def updateStats_def Let_def stats_after_def sample_record_def
        addCloud_cumulus json_cumulus)

lemma built_stats_after: "0 < n \<Longrightarrow> n \<le> 100 \<Longrightarrow> built (stats_after n)"
proof (induction n)
  case 0
  then show ?case by simp
next
  case (Suc n)
  show ?case
  proof (cases "n = 0")
    case True
    have "built (jsonStats (updateStats ''alice'' (sample_record 0) (initialStats ''alice'' (sample_record 0))))"
      by (rule built.first)
    with True show ?thesis by (simp add: stats_after_first)
  next
    case False
    with Suc have b: "built (stats_after n)" and n: "0 < n" "n < 100" by simp_all
    have "built (jsonStats (updateStats ''alice'' (sample_record (int n)) (stats_after n)))"
      using b by (rule built.append)
    then show ?thesis by (simp add: stats_after_next[OF n])
  qed
qed

lemma stats_one_first:
  "stats_one = jsonStats (updateStats ''alice'' (sample_record 1) (initialStats ''alice'' (sample_record 1)))"
  by (simp add: stats_one_def jsonStats_def updateStats_def initialStats_def Let_def
        sample_record_def addCloud_cumulus json_cumulus)

lemma stats_full_after: "stats_full = stats_after 100"
  by (simp add: stats_full_def stats_after_def)

lemma built_stats_one: "built stats_one"
  unfolding stats_one_first by (rule built.first)

lemma built_stats_full: "built stats_full"
  unfolding stats_full_after by (rule built_stats_after) simp_all

lemma appendThenRollback_user:
  assumes "get_user db u = Some st" "\<not> failing db"
  shows "\<exists>db2. appendThenRollback db u nm r = Some (True, db2) \<and>
               get_user db2 u = Some (jsonStats (undoStats (jsonStats (updateStats nm r st))))"
proof -
  obtain db1 where db1: "recordCheckIn db u nm r = Some db1"
    using assms(2) by (simp add: recordCheckIn_eq)
  let ?st1 = "jsonStats (updateStats nm r st)"
  have g1: "get_user db1 u = Some ?st1"
    using get_user_recordCheckIn[OF db1, of u] assms by simp
  have ne: "checkInRecords ?st1 \<noteq> []"
    by (simp add: updateStats_nonempty)
  have np: "\<not> put_raises db1"
    using recordCheckIn_SomeD(2)[OF db1] by (simp add: failing_def)
  have "rollbackLastCheckIn db1 u = (True, snd (rollbackLastCheckIn db1 u))"
    using rollback_eq[OF g1 ne np] by simp
  moreover have "get_user (snd (rollbackLastCheckIn db1 u)) u = Some (jsonStats (undoStats ?st1))"
    using get_user_rollback[OF g1 ne np, of u] by simp
  ultimately show ?thesis using db1 unfolding appendThenRollback_def by (simp, metis)
qed

section \<open>Claims about the statistics aggregator\<close>

text \<open>
  Claim C2, as amended. Take a store whose operations complete and an entity whose
  statistics exist and hold at most 100 recent records. An append followed at once by
  \<open>rollbackLastCheckIn\<close> answers \<open>true\<close> and leaves \<open>totalCheckIns\<close> and \<open>totalImages\<close>
  exactly as they were before the append. The record list is as it was before the append
  when it held fewer than 100 records; when it held 100, its oldest record is gone (the
  append evicts it, and the rollback removes only the newest record). The histogram
  \<open>cloudTypeStats\<close> is exactly as it was before the append when the statistics are ones the
  aggregator has stored and the labels of the record are ordinary names. Moreover
  \<open>rollbackLastCheckIn\<close> answers \<open>false\<close> exactly when no statistics can be read for the
  entity, or its record list is empty, or the last write of the rollback raises.
\<close>

theorem append_rollback_restores:
  "(\<not> failing db \<and> getUserStats db u = Some st \<and> length (checkInRecords st) \<le> 100 \<longrightarrow>
      (\<exists>db2 st2. appendThenRollback db u nm r = Some (True, db2) \<and>
                  getUserStats db2 u = Some st2 \<and>
                  totalCheckIns st2 = totalCheckIns st \<and>
                  totalImages st2 = totalImages st \<and>
                  checkInRecords st2 =
                    (if length (checkInRecords st) < 100 then checkInRecords st
                     else tl (checkInRecords st)) \<and>
                  (built st \<and> plain_labels r \<longrightarrow> cloudTypeStats st2 = cloudTypeStats st))) \<and>
   (fst (rollbackLastCheckIn db u) = False \<longleftrightarrow>
      (getUserStats db u = None \<or> (\<exists>st'. getUserStats db u = Some st' \<and> checkInRecords st' = []) \<or>
       put_raises db))"
proof (intro conjI impI)
  assume a: "\<not> failing db \<and> getUserStats db u = Some st \<and> length (checkInRecords st) \<le> 100"
  then have nf: "\<not> failing db" and gu: "get_user db u = Some st"
    and len: "length (checkInRecords st) \<le> 100" by (simp_all add: getUserStats_def)
  let ?st2 = "jsonStats (undoStats (jsonStats (updateStats nm r st)))"
  obtain db2 where db2: "appendThenRollback db u nm r = Some (True, db2)"
    "get_user db2 u = Some ?st2"
    using appendThenRollback_user[OF gu nf] by blast
  have recs: "checkInRecords ?st2 =
                (if length (checkInRecords st) < 100 then checkInRecords st else tl (checkInRecords st))"
  proof (cases "length (checkInRecords st) < 100")
    case True
    then show ?thesis by (simp add: undo_update)
  next
    case False
    with len have "length (checkInRecords st) = 100" by simp
    then show ?thesis by (simp add: undo_update drop_Suc)
  qed
  have hist: "built st \<and> plain_labels r \<longrightarrow> cloudTypeStats ?st2 = cloudTypeStats st"
    using undo_update_histogram[of r st nm] built_plain[of st] built_json[of st] by blast
  show "\<exists>db2 st2. appendThenRollback db u nm r = Some (True, db2) \<and>
                  getUserStats db2 u = Some st2 \<and>
                  totalCheckIns st2 = totalCheckIns st \<and>
                  totalImages st2 = totalImages st \<and>
                  checkInRecords st2 =
                    (if length (checkInRecords st) < 100 then checkInRecords st
                     else tl (checkInRecords st)) \<and>
                  (built st \<and> plain_labels r \<longrightarrow> cloudTypeStats st2 = cloudTypeStats st)"
    using db2 recs hist undo_update_totals[of nm r st] unfolding getUserStats_def by blast
next
  show "fst (rollbackLastCheckIn db u) = False \<longleftrightarrow>
      (getUserStats db u = None \<or> (\<exists>st'. getUserStats db u = Some st' \<and> checkInRecords st' = []) \<or>
       put_raises db)"
    by (rule rollback_false_iff)
qed

theorem append_rollback_restores_witness:
  "\<not> failing db_one \<and>
   getUserStats db_one ''U1'' = Some stats_one \<and>
   length (checkInRecords stats_one) \<le> 100 \<and>
   built stats_one \<and> plain_labels (sample_record 2) \<and>
   (\<exists>db2 st2. appendThenRollback db_one ''U1'' ''bob'' (sample_record 2) = Some (True, db2) \<and>
               getUserStats db2 ''U1'' = Some st2 \<and>
               totalCheckIns st2 = 1 \<and> totalImages st2 = 1 \<and>
               checkInRecords st2 = [sample_record 1] \<and>
               cloudTypeStats st2 = cloudTypeStats stats_one) \<and>
   \<not> failing db_full \<and>
   getUserStats db_full ''U1'' = Some stats_full \<and>
   length (checkInRecords stats_full) = 100 \<and>
   built stats_full \<and> plain_labels (sample_record 100) \<and>
   (\<exists>db2 st2. appendThenRollback db_full ''U1'' ''alice'' (sample_record 100) = Some (True, db2) \<and>
               getUserStats db2 ''U1'' = Some st2 \<and>
               totalCheckIns st2 = 100 \<and> totalImages st2 = 100 \<and>
               checkInRecords st2 = tl (checkInRecords stats_full) \<and>
               cloudTypeStats st2 = cloudTypeStats stats_full) \<and>
   getUserStats empty_db ''U1'' = None \<and>
   fst (rollbackLastCheckIn empty_db ''U1'') = False"
proof -
  have h0: "\<not> failing db_one" by simp
  have h1: "getUserStats db_one ''U1'' = Some stats_one" by (rule getUserStats_db_one)
  have h2: "length (checkInRecords stats_one) \<le> 100" by (simp add: stats_one_def)
  have h3: "built stats_one" by (rule built_stats_one)
  have h4: "plain_labels (sample_record 2)" by (rule plain_sample_record)
  obtain db2 st2 where c:
    "appendThenRollback db_one ''U1'' ''bob'' (sample_record 2) = Some (True, db2)"
    "getUserStats db2 ''U1'' = Some st2"
    "totalCheckIns st2 = totalCheckIns stats_one"
    "totalImages st2 = totalImages stats_one"
    "checkInRecords st2 =
       (if length (checkInRecords stats_one) < 100 then checkInRecords stats_one
        else tl (checkInRecords stats_one))"
    "built stats_one \<and> plain_labels (sample_record 2) \<longrightarrow> cloudTypeStats st2 = cloudTypeStats stats_one"
    using append_rollback_restores[of db_one "''U1''" stats_one "''bob''" "sample_record 2"] h0 h1 h2
    by blast
  from c(6) h3 h4 have c6: "cloudTypeStats st2 = cloudTypeStats stats_one" by blast
  have c1: "\<exists>db2 st2. appendThenRollback db_one ''U1'' ''bob'' (sample_record 2) = Some (True, db2) \<and>
               getUserStats db2 ''U1'' = Some st2 \<and>
               totalCheckIns st2 = 1 \<and> totalImages st2 = 1 \<and>
               checkInRecords st2 = [sample_record 1] \<and>
               cloudTypeStats st2 = cloudTypeStats stats_one"
    using c(1-5) c6 by (simp add: stats_one_def)
  have f0: "\<not> failing db_full" by simp
  have f1: "getUserStats db_full ''U1'' = Some stats_full" by (rule getUserStats_db_full)
  have f2: "length (checkInRecords stats_full) = 100" by (simp add: stats_full_def)
  have f3: "built stats_full" by (rule built_stats_full)
  have f4: "plain_labels (sample_record 100)" by (rule plain_sample_record)
  obtain db3 st3 where d:
    "appendThenRollback db_full ''U1'' ''alice'' (sample_record 100) = Some (True, db3)"
    "getUserStats db3 ''U1'' = Some st3"
    "totalCheckIns st3 = totalCheckIns stats_full"
    "totalImages st3 = totalImages stats_full"
    "checkInRecords st3 =
       (if length (checkInRecords stats_full) < 100 then checkInRecords stats_full
        else tl (checkInRecords stats_full))"
    "built stats_full \<and> plain_labels (sample_record 100) \<longrightarrow>
       cloudTypeStats st3 = cloudTypeStats stats_full"
    using append_rollback_restores[of db_full "''U1''" stats_full "''alice''" "sample_record 100"]
      f0 f1 f2
    by auto
  from d(6) f3 f4 have d6: "cloudTypeStats st3 = cloudTypeStats stats_full" by blast
  from d(5) f2 have d5: "checkInRecords st3 = tl (checkInRecords stats_full)" by simp
  have t: "totalCheckIns stats_full = 100" "totalImages stats_full = 100"
    by (simp_all add: stats_full_def)
  have c3: "\<exists>db2 st2. appendThenRollback db_full ''U1'' ''alice'' (sample_record 100) = Some (True, db2) \<and>
               getUserStats db2 ''U1'' = Some st2 \<and>
               totalCheckIns st2 = 100 \<and> totalImages st2 = 100 \<and>
               checkInRecords st2 = tl (checkInRecords stats_full) \<and>
               cloudTypeStats st2 = cloudTypeStats stats_full"
    using d(1-4) d5 d6 t by auto
  have g0: "getUserStats empty_db ''U1'' = None" by (rule getUserStats_empty_db)
  have c2: "fst (rollbackLastCheckIn empty_db ''U1'') = False"
    using append_rollback_restores[of empty_db "''U1''" stats_one "''bob''" "sample_record 2"] g0
    by blast
  show ?thesis using h0 h1 h2 h3 h4 c1 f0 f1 f2 f3 f4 c3 g0 c2 by blast
qed

text \<open>
  Claim C2 as stated fails at two inputs. It allows a window of exactly 100 records:
  there the append and the rollback answer \<open>true\<close>, and the record list that remains has
  99 records, the oldest one is lost. And \<open>rollbackLastCheckIn\<close> answers \<open>false\<close> for an
  entity whose statistics can be read and hold a record, on a store whose \<open>put\<close> raises.
\<close>

theorem append_rollback_counterexample:
  "getUserStats db_full ''U1'' = Some stats_full \<and>
   length (checkInRecords stats_full) = 100 \<and>
   built stats_full \<and>
   (\<exists>db2 st2. appendThenRollback db_full ''U1'' ''alice'' (sample_record 100) = Some (True, db2) \<and>
               getUserStats db2 ''U1'' = Some st2 \<and>
               length (checkInRecords st2) = 99 \<and>
               checkInRecords st2 \<noteq> checkInRecords stats_full) \<and>
   getUserStats db_no_put ''U1'' = Some stats_one \<and>
   checkInRecords stats_one = [sample_record 1] \<and>
   fst (rollbackLastCheckIn db_no_put ''U1'') = False"
proof -
  have gu: "get_user db_full ''U1'' = Some stats_full"
    using getUserStats_db_full by (simp add: getUserStats_def)
  have len: "length (checkInRecords stats_full) = 100" by (simp add: stats_full_def)
  let ?st2 = "jsonStats (undoStats (jsonStats (updateStats ''alice'' (sample_record 100) stats_full)))"
  obtain db2 where db2:
    "appendThenRollback db_full ''U1'' ''alice'' (sample_record 100) = Some (True, db2)"
    "get_user db2 ''U1'' = Some ?st2"
    using appendThenRollback_user[OF gu] by auto
  have l99: "length (checkInRecords ?st2) = 99"
    using len by (simp add: undo_update)
  then have ne: "checkInRecords ?st2 \<noteq> checkInRecords stats_full"
    using len by auto
  have a: "\<exists>db2 st2. appendThenRollback db_full ''U1'' ''alice'' (sample_record 100) = Some (True, db2) \<and>
               getUserStats db2 ''U1'' = Some st2 \<and>
               length (checkInRecords st2) = 99 \<and>
               checkInRecords st2 \<noteq> checkInRecords stats_full"
    using db2 l99 ne unfolding getUserStats_def by blast
  have g: "get_user db_no_put ''U1'' = Some stats_one"
    by (simp add: get_user_def db_get_def db_no_put_def db_one_def)
  have r: "checkInRecords stats_one = [sample_record 1]" by (simp add: stats_one_def)
  have pr: "put_raises db_no_put" by (simp add: db_no_put_def)
  have b: "fst (rollbackLastCheckIn db_no_put ''U1'') = False"
    using rollback_put_raises[OF g _ pr] r by simp
  show ?thesis
    using getUserStats_db_full len built_stats_full a g r b by (simp add: getUserStats_def)
qed

text \<open>
  What \<open>recordCheckIn\<close> does on a store whose operations complete. The statistics it
  leaves carry the supplied name and at most 100 recent records. For an entity without
  statistics they have \<open>firstCheckIn = lastCheckIn = timestamp\<close> and \<open>totalCheckIns = 1\<close>.
  Otherwise \<open>totalCheckIns\<close> grows by one, \<open>totalImages\<close> by the record's image count,
  \<open>lastCheckIn\<close> is the record's timestamp, and the record list is the old one with the
  record appended, cut to its last 100 entries. An ordinary label that was absent or held
  a positive number gains one count for each entry of the record's category list that
  carries it.
\<close>

lemma recordCheckIn_effect:
  assumes "\<not> failing db"
  shows "\<exists>db' st'.
           recordCheckIn db u nm r = Some db' \<and>
           getUserStats db' u = Some st' \<and>
           userName st' = nm \<and>
           length (checkInRecords st') \<le> 100 \<and>
           (case getUserStats db u of
              None \<Rightarrow>
                firstCheckIn st' = timestamp r \<and> lastCheckIn st' = timestamp r \<and>
                totalCheckIns st' = 1 \<and> totalImages st' = imageCount r \<and>
                checkInRecords st' = [r]
            | Some st \<Rightarrow>
                totalCheckIns st' = totalCheckIns st + 1 \<and>
                totalImages st' = totalImages st + imageCount r \<and>
                lastCheckIn st' = timestamp r \<and>
                firstCheckIn st' = firstCheckIn st \<and>
                (\<forall>l. plain l \<and> positive_or_absent (cloudTypeStats st l) \<longrightarrow>
                       cloudTypeStats st' l =
                       (if label_count l (cloudTypes r) = 0 then cloudTypeStats st l
                        else Some (Count (or0 (cloudTypeStats st l) + int (label_count l (cloudTypes r)))))) \<and>
                checkInRecords st' =
                  drop (length (checkInRecords st) + 1 - 100) (checkInRecords st @ [r]))"
proof -
  obtain db' where db': "recordCheckIn db u nm r = Some db'"
    using assms by (simp add: recordCheckIn_eq)
  let ?base = "case get_user db u of Some found \<Rightarrow> found | None \<Rightarrow> initialStats nm r"
  let ?st' = "jsonStats (updateStats nm r ?base)"
  have g: "getUserStats db' u = Some ?st'"
    using get_user_recordCheckIn[OF db', of u] by (simp add: getUserStats_def)
  have nm: "userName ?st' = nm" by (simp add: updateStats_fields)
  have le: "length (checkInRecords ?st') \<le> 100" by (simp add: updateStats_length)
  have rest: "case getUserStats db u of
              None \<Rightarrow>
                firstCheckIn ?st' = timestamp r \<and> lastCheckIn ?st' = timestamp r \<and>
                totalCheckIns ?st' = 1 \<and> totalImages ?st' = imageCount r \<and>
                checkInRecords ?st' = [r]
            | Some st \<Rightarrow>
                totalCheckIns ?st' = totalCheckIns st + 1 \<and>
                totalImages ?st' = totalImages st + imageCount r \<and>
                lastCheckIn ?st' = timestamp r \<and>
                firstCheckIn ?st' = firstCheckIn st \<and>
                (\<forall>l. plain l \<and> positive_or_absent (cloudTypeStats st l) \<longrightarrow>
                       cloudTypeStats ?st' l =
                       (if label_count l (cloudTypes r) = 0 then cloudTypeStats st l
                        else Some (Count (or0 (cloudTypeStats st l) + int (label_count l (cloudTypes r)))))) \<and>
                checkInRecords ?st' =
                  drop (length (checkInRecords st) + 1 - 100) (checkInRecords st @ [r])"
  proof (cases "get_user db u")
    case None
    then show ?thesis
      by (simp add: getUserStats_def updateStats_records updateStats_fields)
         (simp add: initialStats_def)
  next
    case (Some st)
    have "\<forall>l. plain l \<and> positive_or_absent (cloudTypeStats st l) \<longrightarrow>
            map_option toJSON (fold addCloud (cloudTypes r) (cloudTypeStats st) l) =
              (if label_count l (cloudTypes r) = 0 then cloudTypeStats st l
               else Some (Count (or0 (cloudTypeStats st l) + int (label_count l (cloudTypes r)))))"
    proof (intro allI impI)
      fix l
      assume pl: "plain l \<and> positive_or_absent (cloudTypeStats st l)"
      then have "fold addCloud (cloudTypes r) (cloudTypeStats st) l =
              (if label_count l (cloudTypes r) = 0 then cloudTypeStats st l
               else Some (Count (or0 (cloudTypeStats st l) + int (label_count l (cloudTypes r)))))"
        using fold_addCloud_plain[of l "cloudTypeStats st" "cloudTypes r"] by simp
      then show "map_option toJSON (fold addCloud (cloudTypes r) (cloudTypeStats st) l) =
              (if label_count l (cloudTypes r) = 0 then cloudTypeStats st l
               else Some (Count (or0 (cloudTypeStats st l) + int (label_count l (cloudTypes r)))))"
        using pl by (simp add: positive_or_absent_json)
    qed
    with Some show ?thesis
      by (simp add: getUserStats_def updateStats_records updateStats_fields)
  qed
  show ?thesis
    using db' g nm le rest by blast
qed

text \<open>
  Claim C3, at an input where the code departs from it. The entity \<open>U1\<close> has statistics
  whose histogram holds no key \<open>constructor\<close>, and the record of the append has one
  category entry, labelled \<open>constructor\<close>. The claim has the append raise the count of
  that label by one, to the number 1. The read \<open>cloudTypeStats[typeName]\<close> finds the
  function \<open>Object\<close> that every object inherits under that name, so \<open>|| 0\<close> does not
  apply and \<open>+ 1\<close> is a string concatenation: the histogram, declared to hold numbers,
  then holds the text of that function followed by the character \<open>1\<close>.
\<close>

theorem recordCheckIn_inherited_label:
  "getUserStats db_one ''U1'' = Some stats_one \<and>
   cloudTypeStats stats_one ''constructor'' = None \<and>
   map type (cloudTypes constructor_record) = [''constructor''] \<and>
   (\<exists>db' st'. recordCheckIn db_one ''U1'' ''alice'' constructor_record = Some db' \<and>
               getUserStats db' ''U1'' = Some st' \<and>
               totalCheckIns st' = 2 \<and>
               cloudTypeStats st' ''constructor'' = Some (Text (FunctionSource ''Object'') 1) \<and>
               cloudTypeStats st' ''constructor'' \<noteq> Some (Count 1))"
proof -
  have g: "get_user db_one ''U1'' = Some stats_one"
    using getUserStats_db_one by (simp add: getUserStats_def)
  obtain db' where db': "recordCheckIn db_one ''U1'' ''alice'' constructor_record = Some db'"
    by (simp add: recordCheckIn_eq)
  let ?st' = "jsonStats (updateStats ''alice'' constructor_record stats_one)"
  have g': "getUserStats db' ''U1'' = Some ?st'"
    using get_user_recordCheckIn[OF db', of "''U1''"] g by (simp add: getUserStats_def)
  have t: "totalCheckIns ?st' = 2" by (simp add: updateStats_fields stats_one_def)
  have c: "cloudTypeStats ?st' ''constructor'' = Some (Text (FunctionSource ''Object'') 1)"
    by (simp add: updateStats_fields stats_one_def constructor_record_simps addCloud_constructor)
  have "\<exists>db' st'. recordCheckIn db_one ''U1'' ''alice'' constructor_record = Some db' \<and>
               getUserStats db' ''U1'' = Some st' \<and>
               totalCheckIns st' = 2 \<and>
               cloudTypeStats st' ''constructor'' = Some (Text (FunctionSource ''Object'') 1) \<and>
               cloudTypeStats st' ''constructor'' \<noteq> Some (Count 1)"
    using db' g' t c by auto
  then show ?thesis
    using getUserStats_db_one
    by (simp add: stats_one_def constructor_record_def constructor_cloud_def)
qed

lemma stored_undo_frame:
  "jsonStats (undoStats st) =
     st\<lparr>totalCheckIns := totalCheckIns (jsonStats (undoStats st)),
        totalImages := totalImages (jsonStats (undoStats st)),
        cloudTypeStats := cloudTypeStats (jsonStats (undoStats st)),
        lastCheckIn := lastCheckIn (jsonStats (undoStats st)),
        checkInRecords := checkInRecords (jsonStats (undoStats st))\<rparr>"
  by (simp add: jsonStats_def undoStats_def Let_def)

text \<open>
  Claim C9. A rollback that succeeds leaves \<open>userName\<close> and \<open>firstCheckIn\<close> of the entity
  as they were: the new statistics differ from the old ones only in \<open>totalCheckIns\<close>,
  \<open>totalImages\<close>, \<open>cloudTypeStats\<close>, \<open>lastCheckIn\<close> and \<open>checkInRecords\<close>. In particular,
  after an append under a new name and its rollback the entity carries the new name, not
  the one it had before the append.
\<close>

theorem rollback_frame:
  "(getUserStats db u = Some st \<and> rollbackLastCheckIn db u = (True, db') \<longrightarrow>
      (\<exists>st'. getUserStats db' u = Some st' \<and>
             userName st' = userName st \<and> firstCheckIn st' = firstCheckIn st \<and>
             st' = st\<lparr>totalCheckIns := totalCheckIns st', totalImages := totalImages st',
                      cloudTypeStats := cloudTypeStats st', lastCheckIn := lastCheckIn st',
                      checkInRecords := checkInRecords st'\<rparr>)) \<and>
   (recordCheckIn db u newName r = Some db1 \<and> rollbackLastCheckIn db1 u = (True, db2) \<longrightarrow>
      (\<exists>st2. getUserStats db2 u = Some st2 \<and> userName st2 = newName))"
proof (intro conjI impI)
  assume a: "getUserStats db u = Some st \<and> rollbackLastCheckIn db u = (True, db')"
  then obtain st0 where st0: "get_user db u = Some st0" "get_user db' u = Some (jsonStats (undoStats st0))"
    using rollback_TrueD by blast
  with a have eq: "st0 = st" by (simp add: getUserStats_def)
  have "userName (jsonStats (undoStats st)) = userName st"
    "firstCheckIn (jsonStats (undoStats st)) = firstCheckIn st"
    by (simp_all add: undoStats_fields)
  then show "\<exists>st'. getUserStats db' u = Some st' \<and>
             userName st' = userName st \<and> firstCheckIn st' = firstCheckIn st \<and>
             st' = st\<lparr>totalCheckIns := totalCheckIns st', totalImages := totalImages st',
                      cloudTypeStats := cloudTypeStats st', lastCheckIn := lastCheckIn st',
                      checkInRecords := checkInRecords st'\<rparr>"
    using st0 eq stored_undo_frame[of st] by (simp add: getUserStats_def)
next
  assume a: "recordCheckIn db u newName r = Some db1 \<and> rollbackLastCheckIn db1 u = (True, db2)"
  then obtain st1 where st1: "get_user db1 u = Some st1" "get_user db2 u = Some (jsonStats (undoStats st1))"
    using rollback_TrueD by blast
  have "userName st1 = newName"
    using get_user_recordCheckIn[of db u newName r db1 u] a st1 by (auto simp: updateStats_fields)
  then have "userName (jsonStats (undoStats st1)) = newName" by (simp add: undoStats_fields)
  with st1 show "\<exists>st2. getUserStats db2 u = Some st2 \<and> userName st2 = newName"
    by (simp add: getUserStats_def)
qed

theorem rollback_frame_witness:
  "getUserStats db_one ''U1'' = Some stats_one \<and> userName stats_one = ''alice'' \<and>
   (\<exists>db' st'. rollbackLastCheckIn db_one ''U1'' = (True, db') \<and>
               getUserStats db' ''U1'' = Some st' \<and>
               userName st' = ''alice'' \<and> firstCheckIn st' = 1) \<and>
   (\<exists>db1 db2 st2. recordCheckIn db_one ''U1'' ''bob'' (sample_record 2) = Some db1 \<and>
                   rollbackLastCheckIn db1 ''U1'' = (True, db2) \<and>
                   getUserStats db2 ''U1'' = Some st2 \<and> userName st2 = ''bob'')"
proof -
  have g: "getUserStats db_one ''U1'' = Some stats_one" by (rule getUserStats_db_one)
  then have gu: "get_user db_one ''U1'' = Some stats_one" by (simp add: getUserStats_def)
  have ne: "checkInRecords stats_one \<noteq> []" by (simp add: stats_one_def)
  have np: "\<not> put_raises db_one" by (simp add: db_one_def)
  have r1: "rollbackLastCheckIn db_one ''U1'' = (True, snd (rollbackLastCheckIn db_one ''U1''))"
    using rollback_eq[OF gu ne np] by simp
  have a0: "\<exists>st'. getUserStats (snd (rollbackLastCheckIn db_one ''U1'')) ''U1'' = Some st' \<and>
               userName st' = userName stats_one \<and> firstCheckIn st' = firstCheckIn stats_one"
    using rollback_frame[of db_one "''U1''" stats_one "snd (rollbackLastCheckIn db_one ''U1'')"] g r1
    by blast
  then obtain st' where st':
    "getUserStats (snd (rollbackLastCheckIn db_one ''U1'')) ''U1'' = Some st'"
    "userName st' = ''alice''" "firstCheckIn st' = 1"
    by (auto simp: stats_one_def)
  have a: "\<exists>db' st'. rollbackLastCheckIn db_one ''U1'' = (True, db') \<and>
               getUserStats db' ''U1'' = Some st' \<and>
               userName st' = ''alice'' \<and> firstCheckIn st' = 1"
    using r1 st' by blast
  obtain db1 where db1: "recordCheckIn db_one ''U1'' ''bob'' (sample_record 2) = Some db1"
    by (simp add: recordCheckIn_eq)
  have g1: "get_user db1 ''U1'' = Some (jsonStats (updateStats ''bob'' (sample_record 2) stats_one))"
    using get_user_recordCheckIn[OF db1, of "''U1''"] gu by simp
  have ne1: "checkInRecords (jsonStats (updateStats ''bob'' (sample_record 2) stats_one)) \<noteq> []"
    by (simp add: updateStats_nonempty)
  have np1: "\<not> put_raises db1"
    using recordCheckIn_SomeD(2)[OF db1] by (simp add: failing_def)
  have r2: "rollbackLastCheckIn db1 ''U1'' = (True, snd (rollbackLastCheckIn db1 ''U1''))"
    using rollback_eq[OF g1 ne1 np1] by simp
  have b: "\<exists>db1 db2 st2. recordCheckIn db_one ''U1'' ''bob'' (sample_record 2) = Some db1 \<and>
                   rollbackLastCheckIn db1 ''U1'' = (True, db2) \<and>
                   getUserStats db2 ''U1'' = Some st2 \<and> userName st2 = ''bob''"
    using rollback_frame[of db_one "''U1''" stats_one _ "''bob''" "sample_record 2" db1
        "snd (rollbackLastCheckIn db1 ''U1'')"] db1 r2
    by blast
  show ?thesis using g a b by (simp add: stats_one_def)
qed

text \<open>
  The invariant of the histogram, for ordinary labels. Start from the empty store and
  run any sequence of appends and rollbacks, for any entities. An ordinary label that is
  then a key of an entity's histogram holds a strictly positive number.
\<close>

lemma plain_counts_positive:
  assumes "getUserStats (fold apply_op ops empty_db) e = Some st"
    and "plain l" and "cloudTypeStats st l = Some v"
  shows "\<exists>c. v = Count c \<and> 0 < c"
proof -
  have "\<forall>e st. get_user empty_db e = Some st \<longrightarrow> built st"
    using getUserStats_empty_db by (simp add: getUserStats_def)
  then have "\<forall>e st. get_user (fold apply_op ops empty_db) e = Some st \<longrightarrow> built st"
    by (rule fold_apply_op_built)
  with assms(1) have "built st" by (simp add: getUserStats_def)
  then have "positive_or_absent (cloudTypeStats st l)" using assms(2) by (rule built_plain)
  with assms(3) show ?thesis by (simp add: positive_or_absent_cases)
qed

text \<open>
  Claim C10, at an input where the code departs from it. Start from the empty store.
  Append for \<open>U1\<close> a record with one category entry, labelled \<open>constructor\<close>: the key
  \<open>constructor\<close> of the histogram then holds a text, not a positive number (the defect
  shown for claim C3). Roll the append back: the read of the key is truthy, \<open>-= 1\<close> turns
  the text into \<open>NaN\<close>, the test \<open>NaN <= 0\<close> is false, so the key is not deleted, and the
  store writes \<open>NaN\<close> as \<open>null\<close>. The key is present after each of the two steps, and what
  it holds is no strictly positive count.
\<close>

theorem inherited_label_stays_in_histogram:
  "getUserStats empty_db ''U1'' = None \<and>
   (\<exists>st. getUserStats (fold apply_op [Append ''U1'' ''alice'' constructor_record] empty_db) ''U1''
            = Some st \<and>
         cloudTypeStats st ''constructor'' = Some (Text (FunctionSource ''Object'') 1)) \<and>
   (\<exists>st. getUserStats (fold apply_op [Append ''U1'' ''alice'' constructor_record,
                                       RollbackLast ''U1''] empty_db) ''U1''
            = Some st \<and>
         cloudTypeStats st ''constructor'' = Some Null \<and> checkInRecords st = [])"
proof -
  have h1: "get_user empty_db ''U1'' = None"
    using getUserStats_empty_db by (simp add: getUserStats_def)
  obtain db1 where db1: "recordCheckIn empty_db ''U1'' ''alice'' constructor_record = Some db1"
    by (simp add: recordCheckIn_eq)
  let ?st1 = "jsonStats (updateStats ''alice'' constructor_record (initialStats ''alice'' constructor_record))"
  have g1: "get_user db1 ''U1'' = Some ?st1"
    using get_user_recordCheckIn[OF db1, of "''U1''"] h1 by simp
  have j1: "cloudTypeStats ?st1 = [''constructor'' \<mapsto> Text (FunctionSource ''Object'') 1]"
    by (rule ext)
       (simp add: updateStats_fields initialStats_def constructor_record_simps addCloud_constructor)
  then have c1: "cloudTypeStats ?st1 ''constructor'' = Some (Text (FunctionSource ''Object'') 1)"
    by simp
  have ne: "checkInRecords ?st1 \<noteq> []" by (simp add: updateStats_nonempty)
  have np: "\<not> put_raises db1"
    using recordCheckIn_SomeD(2)[OF db1] by (simp add: failing_def)
  let ?st2 = "jsonStats (undoStats ?st1)"
  have g2: "get_user (snd (rollbackLastCheckIn db1 ''U1'')) ''U1'' = Some ?st2"
    using get_user_rollback[OF g1 ne np, of "''U1''"] by simp
  have c2: "cloudTypeStats ?st2 ''constructor'' = Some Null"
    by (simp add: undoStats_fields updateStats_last j1 constructor_record_simps
          removeCloud_constructor)
  have r2: "checkInRecords ?st2 = []"
    by (simp add: undoStats_fields updateStats_butlast initialStats_def)
  have a: "\<exists>st. getUserStats (fold apply_op [Append ''U1'' ''alice'' constructor_record] empty_db) ''U1''
            = Some st \<and>
         cloudTypeStats st ''constructor'' = Some (Text (FunctionSource ''Object'') 1)"
    using db1 g1 c1 by (simp add: getUserStats_def)
  have b: "\<exists>st. getUserStats (fold apply_op [Append ''U1'' ''alice'' constructor_record,
                                       RollbackLast ''U1''] empty_db) ''U1''
            = Some st \<and>
         cloudTypeStats st ''constructor'' = Some Null \<and> checkInRecords st = []"
    using db1 g2 c2 r2 by (simp add: getUserStats_def)
  show ?thesis using getUserStats_empty_db a b by blast
qed

text \<open>
  Claim C8, at the input where the code departs from it. With \<open>limit = 0\<close> the
  expression \<open>slice(-limit)\<close> is \<open>slice(0)\<close>, the whole list: for an entity with one
  record, \<open>getRecentCheckIns\<close> answers that record, a list longer than the limit.
\<close>

theorem getRecentCheckIns_limit_zero:
  "getRecentCheckIns db_one ''U1'' 0 = [sample_record 1] \<and>
   \<not> length (getRecentCheckIns db_one ''U1'' 0) \<le> 0"
  by (simp add: getRecentCheckIns_def getUserStats_db_one slice_from_def stats_one_def)

text \<open>
  For a positive limit the answer is the last \<open>limit\<close> records, the newest first, as
  the claim says. (The sibling \<open>getActiveUsersRanking\<close> cuts with \<open>slice(0, limit)\<close>,
  which is empty for the limit 0.)
\<close>

lemma getRecentCheckIns_positive_limit:
  assumes "0 < limit" and "getUserStats db u = Some st"
  shows "getRecentCheckIns db u limit
           = rev (drop (length (checkInRecords st) - nat limit) (checkInRecords st))"
    and "length (getRecentCheckIns db u limit) \<le> nat limit"
proof -
  have "nat (max (int (length (checkInRecords st)) - limit) 0) = length (checkInRecords st) - nat limit"
    using assms(1) by arith
  then show "getRecentCheckIns db u limit
           = rev (drop (length (checkInRecords st) - nat limit) (checkInRecords st))"
    using assms by (simp add: getRecentCheckIns_def slice_from_def)
  then show "length (getRecentCheckIns db u limit) \<le> nat limit"
    by simp
qed


section \<open>Claims about the ledger and the rate limiter\<close>

text \<open>
  Claim C7, as amended. \<open>deleteProcessedAtMessage\<close> answers \<open>true\<close> exactly when the
  \<open>del\<close> of the store completed, whether or not a record was there, and afterwards no
  record can be read for the notification; it answers \<open>false\<close> only when the \<open>del\<close>
  raised, which it does on a closed store. (Whether a record exists is looked up by the
  caller, \<open>clearProcessedMessage\<close>, before it calls the function.)
\<close>

theorem deleteProcessed_result:
  "fst (deleteProcessedAtMessage db n) = (\<not> closed db) \<and>
   getProcessedAtMessage (snd (deleteProcessedAtMessage db n)) n = None"
  by (simp add: deleteProcessedAtMessage_def db_del_def getProcessedAtMessage_def db_get_def)

text \<open>
  Claim C7 as stated: for a notification without a record the answer would be \<open>false\<close>.
  On the empty store the answer is \<open>true\<close>.
\<close>

theorem deleteProcessed_missing_counterexample:
  "getProcessedAtMessage empty_db 42 = None \<and>
   \<not> isAtMessageProcessed empty_db 42 \<and>
   fst (deleteProcessedAtMessage empty_db 42) = True"
  by (simp add: deleteProcessedAtMessage_def db_del_def getProcessedAtMessage_def
        isAtMessageProcessed_def db_get_def empty_db_def)

text \<open>
  Claim C5. After \<open>recordDailyComment\<close> completed for an entity on the calendar day \<open>D\<close>,
  \<open>hasUserCommentedToday\<close> answers \<open>true\<close> for every check made on day \<open>D\<close>, and for
  every other day (the next one among them) it answers what it answered before the mark:
  \<open>false\<close> when no mark was written for that day.
\<close>

theorem daily_gate:
  assumes "recordDailyComment D t0 db e = Some db'"
  shows "hasUserCommentedToday D db' e \<and>
         (\<forall>D'. D' \<noteq> D \<longrightarrow> hasUserCommentedToday D' db' e = hasUserCommentedToday D' db e)"
  using assms
  by (auto simp: recordDailyComment_def db_put_def hasUserCommentedToday_def db_get_def daily_key_inj
           split: if_splits)

theorem daily_gate_witness:
  "\<exists>db'. recordDailyComment new_years_eve 1000 empty_db ''U1'' = Some db' \<and>
         hasUserCommentedToday new_years_eve db' ''U1'' \<and>
         \<not> hasUserCommentedToday new_years_day db' ''U1''"
proof -
  obtain db' where db': "recordDailyComment new_years_eve 1000 empty_db ''U1'' = Some db'"
    by (simp add: recordDailyComment_def db_put_def empty_db_def)
  have ne: "new_years_day \<noteq> new_years_eve"
    by (simp add: new_years_day_def new_years_eve_def)
  have before: "\<not> hasUserCommentedToday new_years_day empty_db ''U1''"
    by (simp add: hasUserCommentedToday_def db_get_def empty_db_def)
  show ?thesis
    using daily_gate[OF db'] db' ne before by blast
qed

section \<open>Lemmas about the workflow\<close>

lemma key_classes [simp]:
  "is_stats_key (user_key u)" "is_stats_key (record_key u t)"
  "\<not> is_stats_key (processed_key n)" "\<not> is_stats_key (daily_key a d)"
  "is_daily_key (daily_key a d)" "\<not> is_daily_key (processed_key n)"
  "\<not> is_daily_key (user_key u)" "\<not> is_daily_key (record_key u t)"
  by (simp_all add: is_stats_key_def is_daily_key_def starts_with_def key_defs)

lemma same_except_refl [simp]: "same_except T db db"
  by (simp add: same_except_def)

lemma same_except_trans:
  "same_except T1 db db1 \<Longrightarrow> same_except T2 db1 db2 \<Longrightarrow> same_except (\<lambda>k. T1 k \<or> T2 k) db db2"
  by (simp add: same_except_def)

lemma same_except_weaken:
  "same_except T db db' \<Longrightarrow> (\<And>k. T k \<Longrightarrow> T' k) \<Longrightarrow> same_except T' db db'"
  by (auto simp: same_except_def)

lemma same_except_processed:
  "same_except T db db' \<Longrightarrow> \<not> T (processed_key n) \<Longrightarrow>
   isAtMessageProcessed db' n = isAtMessageProcessed db n \<and>
   getProcessedAtMessage db' n = getProcessedAtMessage db n"
  by (simp add: same_except_def isAtMessageProcessed_def getProcessedAtMessage_def db_get_def)

lemma same_except_daily:
  "same_except T db db' \<Longrightarrow> \<not> T (daily_key a d) \<Longrightarrow>
   hasUserCommentedToday d db' a = hasUserCommentedToday d db a"
  by (simp add: same_except_def hasUserCommentedToday_def db_get_def)

lemma same_except_user:
  "same_except T db db' \<Longrightarrow> \<not> T (user_key u) \<Longrightarrow> getUserStats db' u = getUserStats db u"
  by (simp add: same_except_def getUserStats_def get_user_def db_get_def)

lemma recordCheckIn_frame:
  "recordCheckIn db a nm r = Some db1 \<Longrightarrow> same_except is_stats_key db db1"
  by (cases "failing db") (auto simp: recordCheckIn_failing recordCheckIn_eq same_except_def)

lemma rollback_touches_stats_keys: "same_except is_stats_key db (snd (rollbackLastCheckIn db a))"
proof (cases "get_user db a")
  case None
  then show ?thesis by (simp add: rollbackLastCheckIn_def)
next
  case (Some st)
  show ?thesis
  proof (cases "checkInRecords st = []")
    case True
    with Some show ?thesis by (simp add: rollbackLastCheckIn_def)
  next
    case False
    have keys: "k \<noteq> user_key a \<and> k \<noteq> record_key a t" if "\<not> is_stats_key k" for k t
      using that key_classes(1,2) by metis
    show ?thesis
    proof (cases "put_raises db")
      case True
      with keys show ?thesis
        by (simp add: rollback_put_raises[OF Some False] same_except_def)
    next
      case nr: False
      with keys show ?thesis
        by (simp add: rollback_eq[OF Some False] same_except_def)
    qed
  qed
qed

lemma recordDailyComment_frame:
  "recordDailyComment d t db a = Some db' \<Longrightarrow> same_except is_daily_key db db'"
  by (auto simp: recordDailyComment_def db_put_def same_except_def split: if_splits)

lemma markProcessed_frame:
  "same_except (\<lambda>k. k = processed_key (id_m m)) db (markProcessed env m did db)"
  by (auto simp: markProcessed_def recordProcessedAtMessage_def db_put_def same_except_def)

lemma markProcessed_processed:
  "\<not> failing db \<Longrightarrow> isAtMessageProcessed (markProcessed env m did db) (id_m m)"
  by (simp add: markProcessed_def recordProcessedAtMessage_def db_put_def isAtMessageProcessed_def
        db_get_def failing_def)

lemma analysisStep_events:
  "analysisStep env imgs = (x, evs) \<Longrightarrow> e \<in> set evs \<Longrightarrow> \<exists>us. e = CallAnalyze us"
  by (auto simp: analysisStep_def Let_def split: if_splits)

lemma checkInImageStep_events:
  "checkInImageStep env us = (img, evs) \<Longrightarrow> e \<in> set evs \<Longrightarrow>
   e = CallGenerateImage \<or> (\<exists>p. e = CallUploadImage p)"
  by (auto simp: checkInImageStep_def split: option.splits if_splits)

lemma saveCheckIn_cases:
  assumes "saveCheckIn env db aid dd crd cts msg = (saved, us, db1, evs)"
  shows "(saved \<and> (\<exists>a nm r. aid = Some a \<and> recordCheckIn db a nm r = Some db1 \<and>
                      evs = [CallRecordCheckIn a])) \<or>
         (\<not> saved \<and> db1 = db \<and> us = None \<and>
            (evs = [] \<or> (failing db \<and> (\<exists>a. aid = Some a \<and> evs = [CallRecordCheckIn a]))))"
  using assms
  by (auto simp: saveCheckIn_def Let_def recordCheckIn_failing recordCheckIn_eq
        split: option.splits if_splits)

lemma rollbackIfSaved_frame:
  "rollbackIfSaved db saved aid = (db2, evs) \<Longrightarrow> same_except is_stats_key db db2"
  using rollback_touches_stats_keys
  by (auto simp: rollbackIfSaved_def split: option.splits if_splits)

lemma rollbackIfSaved_events:
  "rollbackIfSaved db saved aid = (db2, evs) \<Longrightarrow> e \<in> set evs \<Longrightarrow> \<exists>a. e = CallRollback a"
  by (auto simp: rollbackIfSaved_def split: option.splits if_splits)

lemma postComment_cases:
  assumes "postComment env db ty rid crd dd = (ok, db', evs)"
  shows "(\<not> ok \<and> db' = db \<and> (\<forall>e. e \<in> set evs \<longrightarrow> (\<exists>us. e = CallAnalyze us))) \<or>
         (\<exists>token cts msg saved us db1 evs1 evs2 img evs3 tail.
            analysisStep env (checkImagesInDynamicCard crd) = (Some (cts, msg), evs1) \<and>
            saveCheckIn env db (authorOf dd) dd crd cts msg = (saved, us, db1, evs2) \<and>
            checkInImageStep env us = (img, evs3) \<and>
            evs = evs1 @ evs2 @ evs3 @
                  [CallAddComment \<lparr>oid = rid, type_p = ty, message = msg, csrf = token, pictures = img\<rparr>] @ tail \<and>
            ((addComment env \<lparr>oid = rid, type_p = ty, message = msg, csrf = token, pictures = img\<rparr> = PostCode 0 \<and>
              ok \<and>
              ((authorOf dd = None \<and> db' = db1 \<and> tail = []) \<or>
               (\<exists>a. authorOf dd = Some a \<and> tail = [CallRecordDaily a] \<and>
                    (recordDailyComment (today env) (now env) db1 a = Some db' \<or>
                     (recordDailyComment (today env) (now env) db1 a = None \<and> db' = db1))))) \<or>
             (addComment env \<lparr>oid = rid, type_p = ty, message = msg, csrf = token, pictures = img\<rparr> \<noteq> PostCode 0 \<and>
              \<not> ok \<and> rollbackIfSaved db1 saved (authorOf dd) = (db', tail))))"
proof (cases "getCsrfToken (cookie env)")
  case None
  with assms show ?thesis by (simp add: postComment_def)
next
  case (Some token)
  obtain analysed evs1 where an: "analysisStep env (checkImagesInDynamicCard crd) = (analysed, evs1)"
    by (cases "analysisStep env (checkImagesInDynamicCard crd)")
  show ?thesis
  proof (cases analysed)
    case None
    with assms Some an analysisStep_events[OF an] show ?thesis
      by (auto simp: postComment_def Let_def)
  next
    case (Some ct)
    obtain cts msg where ct: "ct = (cts, msg)" by (cases ct)
    obtain saved us db1 evs2 where sv:
      "saveCheckIn env db (authorOf dd) dd crd cts msg = (saved, us, db1, evs2)"
      by (cases "saveCheckIn env db (authorOf dd) dd crd cts msg")
    obtain img evs3 where im: "checkInImageStep env us = (img, evs3)"
      by (cases "checkInImageStep env us")
    let ?payload = "\<lparr>oid = rid, type_p = ty, message = msg, csrf = token, pictures = img\<rparr>"
    obtain db2 evs4 where rb: "rollbackIfSaved db1 saved (authorOf dd) = (db2, evs4)"
      by (cases "rollbackIfSaved db1 saved (authorOf dd)")
    have an': "analysisStep env (checkImagesInDynamicCard crd) = (Some (cts, msg), evs1)"
      using an Some ct by simp
    show ?thesis
    proof (cases "addComment env ?payload = PostCode 0")
      case True
      show ?thesis
      proof (cases "authorOf dd")
        case None
        have "ok \<and> db' = db1 \<and> evs = evs1 @ evs2 @ evs3 @ [CallAddComment ?payload] @ []"
          using assms \<open>getCsrfToken (cookie env) = Some token\<close> an' sv im True None
          by (simp add: postComment_def Let_def authorOf_def)
        with an' sv im True None show ?thesis by blast
      next
        case (Some a)
        have "ok \<and> evs = evs1 @ evs2 @ evs3 @ [CallAddComment ?payload] @ [CallRecordDaily a] \<and>
              (recordDailyComment (today env) (now env) db1 a = Some db' \<or>
                     (recordDailyComment (today env) (now env) db1 a = None \<and> db' = db1))"
          using assms \<open>getCsrfToken (cookie env) = Some token\<close> an' sv im True Some
          by (auto simp: postComment_def Let_def authorOf_def split: option.splits)
        with an' sv im True Some show ?thesis by blast
      qed
    next
      case False
      have "\<not> ok \<and> db' = db2 \<and> evs = evs1 @ evs2 @ evs3 @ [CallAddComment ?payload] @ evs4"
        using assms \<open>getCsrfToken (cookie env) = Some token\<close> an' sv im False rb
        by (auto simp: postComment_def Let_def authorOf_def split: PostResult.splits)
      with an' sv im False rb show ?thesis by blast
    qed
  qed
qed

lemma saveCheckIn_frame:
  "saveCheckIn env db aid dd crd cts msg = (saved, us, db1, evs) \<Longrightarrow> same_except is_stats_key db db1"
  using saveCheckIn_cases[of env db aid dd crd cts msg saved us db1 evs] recordCheckIn_frame
  by auto

lemma saveCheckIn_events:
  "saveCheckIn env db aid dd crd cts msg = (saved, us, db1, evs) \<Longrightarrow> e \<in> set evs \<Longrightarrow>
   \<exists>a. e = CallRecordCheckIn a"
  using saveCheckIn_cases[of env db aid dd crd cts msg saved us db1 evs]
  by auto

lemma postComment_frame:
  assumes "postComment env db ty rid crd dd = (ok, db', evs)"
  shows "same_except (\<lambda>k. is_stats_key k \<or> is_daily_key k) db db'"
  using postComment_cases[OF assms]
proof (elim disjE exE conjE)
  assume "db' = db"
  then show ?thesis by simp
next
  fix token cts msg saved us db1 evs1 evs2 img evs3 tail
  assume sv: "saveCheckIn env db (authorOf dd) dd crd cts msg = (saved, us, db1, evs2)"
    and "authorOf dd = None" "db' = db1"
  then show ?thesis
    using saveCheckIn_frame[OF sv] by (auto elim: same_except_weaken)
next
  fix token cts msg saved us db1 evs1 evs2 img evs3 tail a
  assume sv: "saveCheckIn env db (authorOf dd) dd crd cts msg = (saved, us, db1, evs2)"
    and d: "recordDailyComment (today env) (now env) db1 a = Some db'"
  show ?thesis
    using same_except_trans[OF saveCheckIn_frame[OF sv] recordDailyComment_frame[OF d]] .
next
  fix token cts msg saved us db1 evs1 evs2 img evs3 tail a
  assume sv: "saveCheckIn env db (authorOf dd) dd crd cts msg = (saved, us, db1, evs2)"
    and "db' = db1"
  then show ?thesis
    using saveCheckIn_frame[OF sv] by (auto elim: same_except_weaken)
next
  fix token cts msg saved us db1 evs1 evs2 img evs3 tail
  assume sv: "saveCheckIn env db (authorOf dd) dd crd cts msg = (saved, us, db1, evs2)"
    and rb: "rollbackIfSaved db1 saved (authorOf dd) = (db', tail)"
  show ?thesis
    using same_except_trans[OF saveCheckIn_frame[OF sv] rollbackIfSaved_frame[OF rb]]
    by (auto elim: same_except_weaken)
qed

lemma append_rollback_totalActions:
  assumes "recordCheckIn db a nm r = Some db1"
  shows "totalActions (snd (rollbackLastCheckIn db1 a)) a = totalActions db a"
proof -
  let ?base = "case get_user db a of Some found \<Rightarrow> found | None \<Rightarrow> initialStats nm r"
  have g1: "get_user db1 a = Some (jsonStats (updateStats nm r ?base))"
    using get_user_recordCheckIn[OF assms, of a] by simp
  have ne: "checkInRecords (jsonStats (updateStats nm r ?base)) \<noteq> []"
    by (simp add: updateStats_nonempty)
  have np: "\<not> put_raises db1"
    using recordCheckIn_SomeD(2)[OF assms] by (simp add: failing_def)
  have "get_user (snd (rollbackLastCheckIn db1 a)) a
          = Some (jsonStats (undoStats (jsonStats (updateStats nm r ?base))))"
    using get_user_rollback[OF g1 ne np, of a] by simp
  then show ?thesis
    by (simp add: totalActions_def getUserStats_def undo_update initialStats_def
          split: option.splits)
qed

lemma postComment_failed:
  assumes pc: "postComment env db ty rid crd dd = (ok, db', evs)"
    and p: "CallAddComment p \<in> set evs"
    and fail: "addComment env p \<noteq> PostCode 0"
  shows "\<not> ok \<and> same_except is_stats_key db db' \<and>
         (\<forall>a. CallRecordCheckIn a \<in> set evs \<and> \<not> failing db \<longrightarrow>
              authorOf dd = Some a \<and> totalActions db' a = totalActions db a \<and>
              CallRollback a \<in> set evs)"
proof (rule disjE[OF postComment_cases[OF pc]])
  assume "\<not> ok \<and> db' = db \<and> (\<forall>e. e \<in> set evs \<longrightarrow> (\<exists>us. e = CallAnalyze us))"
  with p show ?thesis by blast
next
  assume "\<exists>token cts msg saved us db1 evs1 evs2 img evs3 tail.
            analysisStep env (checkImagesInDynamicCard crd) = (Some (cts, msg), evs1) \<and>
            saveCheckIn env db (authorOf dd) dd crd cts msg = (saved, us, db1, evs2) \<and>
            checkInImageStep env us = (img, evs3) \<and>
            evs = evs1 @ evs2 @ evs3 @
                  [CallAddComment \<lparr>oid = rid, type_p = ty, message = msg, csrf = token, pictures = img\<rparr>] @ tail \<and>
            ((addComment env \<lparr>oid = rid, type_p = ty, message = msg, csrf = token, pictures = img\<rparr> = PostCode 0 \<and>
              ok \<and>
              ((authorOf dd = None \<and> db' = db1 \<and> tail = []) \<or>
               (\<exists>a. authorOf dd = Some a \<and> tail = [CallRecordDaily a] \<and>
                    (recordDailyComment (today env) (now env) db1 a = Some db' \<or>
                     (recordDailyComment (today env) (now env) db1 a = None \<and> db' = db1))))) \<or>
             (addComment env \<lparr>oid = rid, type_p = ty, message = msg, csrf = token, pictures = img\<rparr> \<noteq> PostCode 0 \<and>
              \<not> ok \<and> rollbackIfSaved db1 saved (authorOf dd) = (db', tail)))"
  then obtain token cts msg saved us db1 evs1 evs2 img evs3 tail where
    an: "analysisStep env (checkImagesInDynamicCard crd) = (Some (cts, msg), evs1)"
    and sv: "saveCheckIn env db (authorOf dd) dd crd cts msg = (saved, us, db1, evs2)"
    and im: "checkInImageStep env us = (img, evs3)"
    and evs: "evs = evs1 @ evs2 @ evs3 @
                  [CallAddComment \<lparr>oid = rid, type_p = ty, message = msg, csrf = token, pictures = img\<rparr>] @ tail"
    and out: "(addComment env \<lparr>oid = rid, type_p = ty, message = msg, csrf = token, pictures = img\<rparr> = PostCode 0 \<and>
               (tail = [] \<or> (\<exists>a. tail = [CallRecordDaily a]))) \<or>
              (addComment env \<lparr>oid = rid, type_p = ty, message = msg, csrf = token, pictures = img\<rparr> \<noteq> PostCode 0 \<and>
               \<not> ok \<and> rollbackIfSaved db1 saved (authorOf dd) = (db', tail))"
    by blast
  have tail_events: "\<forall>e. e \<in> set tail \<longrightarrow> (\<forall>q. e \<noteq> CallAddComment q)"
    using out rollbackIfSaved_events[of db1 saved "authorOf dd" db' tail] by auto
  have payload: "p = \<lparr>oid = rid, type_p = ty, message = msg, csrf = token, pictures = img\<rparr>"
    using p evs tail_events analysisStep_events[OF an] saveCheckIn_events[OF sv]
      checkInImageStep_events[OF im]
    by auto
  with out fail have nok: "\<not> ok" and rb: "rollbackIfSaved db1 saved (authorOf dd) = (db', tail)"
    by auto
  have frame: "same_except is_stats_key db db'"
    using same_except_trans[OF saveCheckIn_frame[OF sv] rollbackIfSaved_frame[OF rb]]
    by (auto elim: same_except_weaken)
  have "authorOf dd = Some a \<and> totalActions db' a = totalActions db a \<and> CallRollback a \<in> set evs"
    if a: "CallRecordCheckIn a \<in> set evs" and nf: "\<not> failing db" for a
  proof -
    have "CallRecordCheckIn a \<in> set evs2"
      using a evs analysisStep_events[OF an] checkInImageStep_events[OF im]
        rollbackIfSaved_events[OF rb]
      by auto
    then obtain nm r where s: "saved" "authorOf dd = Some a" "recordCheckIn db a nm r = Some db1"
      using saveCheckIn_cases[OF sv] nf by auto
    have "db' = snd (rollbackLastCheckIn db1 a)" "tail = [CallRollback a]"
      using rb s by (simp_all add: rollbackIfSaved_def)
    then show ?thesis
      using s append_rollback_totalActions[OF s(3)] evs by simp
  qed
  with nok frame show ?thesis by blast
qed

lemma checkIf_no_images:
  "checkImagesInDynamicCard crd = [] \<Longrightarrow>
   checkIfUserCommentedAndPost env db ty rid crd dd = (True, db, [])"
  by (simp add: checkIfUserCommentedAndPost_def)

lemma checkIf_cases:
  assumes "checkIfUserCommentedAndPost env db ty rid crd dd = (ok, db', evs)"
  shows "(db' = db \<and> (\<forall>e. e \<in> set evs \<longrightarrow> e = CallGetComments ty rid)) \<or>
         (\<exists>evs'. postComment env db ty rid crd dd = (ok, db', evs') \<and>
                 evs = CallGetComments ty rid # evs' \<and>
                 (\<forall>a. authorOf dd = Some a \<longrightarrow> \<not> hasUserCommentedToday (today env) db a))"
proof -
  obtain ok1 db1 evs1 where pc: "postComment env db ty rid crd dd = (ok1, db1, evs1)"
    by (cases "postComment env db ty rid crd dd")
  show ?thesis
    using assms pc
    by (auto simp: checkIfUserCommentedAndPost_def authorOf_def Let_def
          split: if_splits option.splits CommentsResult.splits)
qed

lemma fetchDynamicData_events:
  "fetchDynamicData env u did = (x, evs) \<Longrightarrow> e \<in> set evs \<Longrightarrow>
   (\<exists>d. e = CallOpusDetail d) \<or> (\<exists>d. e = CallDynamicDetails d)"
  by (auto simp: fetchDynamicData_def Let_def split: if_splits option.splits)

lemma processAtMessage_cases:
  assumes "processAtMessage env db m = (db', evs)"
  shows "(\<exists>did evs1. db' = markProcessed env m did db \<and> evs = evs1 @ [CallRecordProcessed (id_m m)] \<and>
            (\<forall>e. e \<in> set evs1 \<longrightarrow> (\<exists>d. e = CallOpusDetail d) \<or> (\<exists>d. e = CallDynamicDetails d))) \<or>
         (db' = db \<and> (\<forall>e. e \<in> set evs \<longrightarrow> (\<exists>d. e = CallOpusDetail d) \<or> (\<exists>d. e = CallDynamicDetails d))) \<or>
         (\<exists>did dd evs1 ty rid ok db1 evs2.
            extractDynamicId (uri m) = Inr did \<and>
            fetchDynamicData env (uri m) did = (Some dd, evs1) \<and>
            checkIfUserCommentedAndPost env db ty rid (dynamicCardOf m did dd) (Some dd) = (ok, db1, evs2) \<and>
            (if ok then db' = markProcessed env m did db1 \<and>
                        evs = evs1 @ evs2 @ [CallRecordProcessed (id_m m)]
             else db' = db1 \<and> evs = evs1 @ evs2))"
proof (cases "extractDynamicId (uri m)")
  case (Inl sentinel)
  with assms show ?thesis by (auto simp: processAtMessage_def)
next
  case (Inr did)
  obtain fetched evs1 where f: "fetchDynamicData env (uri m) did = (fetched, evs1)"
    by (cases "fetchDynamicData env (uri m) did")
  show ?thesis
  proof (cases fetched)
    case None
    with assms Inr f fetchDynamicData_events[OF f] show ?thesis
      by (auto simp: processAtMessage_def)
  next
    case (Some dd)
    show ?thesis
    proof (cases "truthy (createTimeOf dd) \<and> now env - the (createTimeOf dd) > oneDayMs")
      case True
      with assms Inr f Some fetchDynamicData_events[OF f] show ?thesis
        by (auto simp: processAtMessage_def Let_def)
    next
      case False
      let ?crd = "dynamicCardOf m did dd"
      let ?ty = "if comment_type (basic_c ?crd) \<noteq> 0 then comment_type (basic_c ?crd) else business_id m"
      let ?rid = "if rid_str (basic_c ?crd) \<noteq> [] then rid_str (basic_c ?crd) else did"
      obtain ok db1 evs2 where c:
        "checkIfUserCommentedAndPost env db ?ty ?rid ?crd (Some dd) = (ok, db1, evs2)"
        by (cases "checkIfUserCommentedAndPost env db ?ty ?rid ?crd (Some dd)")
      have "if ok then db' = markProcessed env m did db1 \<and>
                        evs = evs1 @ evs2 @ [CallRecordProcessed (id_m m)]
             else db' = db1 \<and> evs = evs1 @ evs2"
        using assms Inr f Some False c by (auto simp: processAtMessage_def Let_def)
      with Inr f Some c show ?thesis by blast
    qed
  qed
qed

lemma checkIf_frame:
  assumes "checkIfUserCommentedAndPost env db ty rid crd dd = (ok, db', evs)"
  shows "same_except (\<lambda>k. is_stats_key k \<or> is_daily_key k) db db'"
  using checkIf_cases[OF assms] postComment_frame by auto

lemma processAtMessage_frame:
  assumes "processAtMessage env db m = (db', evs)"
  shows "same_except (\<lambda>k. (is_stats_key k \<or> is_daily_key k) \<or> k = processed_key (id_m m)) db db'"
  using processAtMessage_cases[OF assms]
proof (elim disjE exE conjE)
  fix did evs1
  assume "db' = markProcessed env m did db"
  then show ?thesis
    using markProcessed_frame[of m db env did] by (auto elim: same_except_weaken)
next
  assume "db' = db"
  then show ?thesis by simp
next
  fix did dd evs1 ty rid ok db1 evs2
  assume c: "checkIfUserCommentedAndPost env db ty rid (dynamicCardOf m did dd) (Some dd) = (ok, db1, evs2)"
    and r: "if ok then db' = markProcessed env m did db1 \<and>
                       evs = evs1 @ evs2 @ [CallRecordProcessed (id_m m)]
            else db' = db1 \<and> evs = evs1 @ evs2"
  show ?thesis
  proof (cases ok)
    case True
    with r have "db' = markProcessed env m did db1" by simp
    then show ?thesis
      using same_except_trans[OF checkIf_frame[OF c] markProcessed_frame[of m db1 env did]] by simp
  next
    case False
    with r have "db' = db1" by simp
    then show ?thesis
      using checkIf_frame[OF c] by (auto elim: same_except_weaken)
  qed
qed

lemma processAll_skips:
  assumes "isAtMessageProcessed db n" and "processAll env ms db = (db', calls)"
  shows "(\<forall>e. ForMessage n e \<notin> set calls) \<and>
         getProcessedAtMessage db' n = getProcessedAtMessage db n \<and>
         isAtMessageProcessed db' n"
  using assms
proof (induction ms arbitrary: db db' calls)
  case Nil
  then show ?case by simp
next
  case (Cons m ms)
  show ?case
  proof (cases "isAtMessageProcessed db (id_m m)")
    case True
    with Cons.prems have "processAll env ms db = (db', calls)" by simp
    from Cons.IH[OF Cons.prems(1) this] show ?thesis .
  next
    case False
    obtain db1 evs where pa: "processAtMessage env db m = (db1, evs)"
      by (cases "processAtMessage env db m")
    obtain db2 calls2 where rest: "processAll env ms db1 = (db2, calls2)"
      by (cases "processAll env ms db1")
    from Cons.prems(2) False pa rest
    have eq: "db' = db2" "calls = map (ForMessage (id_m m)) evs @ calls2" by simp_all
    have ne: "id_m m \<noteq> n" using False Cons.prems(1) by auto
    have kne: "processed_key n \<noteq> processed_key (id_m m)"
      using False Cons.prems(1) by (auto simp: isAtMessageProcessed_def)
    have keep: "isAtMessageProcessed db1 n = isAtMessageProcessed db n \<and>
                getProcessedAtMessage db1 n = getProcessedAtMessage db n"
      using same_except_processed[OF processAtMessage_frame[OF pa], of n] kne by simp
    then have p1: "isAtMessageProcessed db1 n" using Cons.prems(1) by simp
    from Cons.IH[OF p1 rest] keep eq ne show ?thesis by auto
  qed
qed

lemma sample_parse: "extractDynamicId (uri sample_message) = Inr ''9''"
  by (simp add: extractDynamicId_def sample_message_def starts_with_def is_digit_def)

lemma sample_fetch:
  "fetchDynamicData (sample_env ms outcome) (uri sample_message) ''9''
     = (Some (sample_detail ms), [CallOpusDetail ''9''])"
  by (simp add: fetchDynamicData_def sample_env_def sample_message_def starts_with_def)

lemma sample_token: "getCsrfToken (cookie (sample_env ms outcome)) = Some ''tok''"
  by (simp add: getCsrfToken_def sample_env_def starts_with_def)

lemma sample_images:
  "checkImagesInDynamicCard (dynamicCardOf sample_message did (sample_detail [author_module, picture_module]))
     = [\<lparr>url_i = ''http://i/1.jpg'', type_i = ''opus_pic''\<rparr>]"
  by (simp add: checkImagesInDynamicCard_def dynamicCardOf_def sample_detail_def modulesArray_def
        moduleImages_def author_module_def picture_module_def picImages_def)

lemma sample_no_images:
  "checkImagesInDynamicCard (dynamicCardOf sample_message did (sample_detail [author_module])) = []"
  by (simp add: checkImagesInDynamicCard_def dynamicCardOf_def sample_detail_def modulesArray_def
        moduleImages_def author_module_def)

lemma sample_author: "extractAuthorId (sample_detail (author_module # ms)) = Some ''7''"
  by (simp add: extractAuthorId_def sample_detail_def modulesArray_def author_module_def truthy_def
        num_str_def nat_str.simps digit_char_def)

lemma sample_author_name: "extractAuthorName (sample_detail (author_module # ms)) = Some ''alice''"
  by (simp add: extractAuthorName_def sample_detail_def modulesArray_def author_module_def)

lemma sample_time: "createTimeOf (sample_detail (author_module # ms)) = Some 1000000"
  by (simp add: createTimeOf_def sample_detail_def timeFields_def truthy_def modulesArray_def
        author_module_def Let_def)

lemma failing_env_fields:
  "today failing_env = new_years_eve" "now failing_env = 8200000"
  "enableCloudAnalysis failing_env" "\<not> enableCheckInImage failing_env"
  "uidToMonitor failing_env = ''3493260607622030''"
  "getComments failing_env t r = CommentsData (Some [])"
  "analyzeMultipleImagesWithTypes failing_env us = Some ([cumulus], ''a fine cumulus'')"
  "addComment failing_env q = PostCode (- 101)"
  by (simp_all add: failing_env_def sample_env_def)

lemma failing_env_token: "getCsrfToken (cookie failing_env) = Some ''tok''"
  unfolding failing_env_def by (rule sample_token)

lemma failing_env_fetch:
  "fetchDynamicData failing_env (uri sample_message) ''9''
     = (Some (sample_detail [author_module, picture_module]), [CallOpusDetail ''9''])"
  unfolding failing_env_def by (rule sample_fetch)

lemma sample_checkInImage [simp]: "checkInImageStep failing_env us = (None, [])"
  by (simp add: checkInImageStep_def failing_env_fields split: option.splits)

lemma failing_run_events:
  "snd (processAtMessage failing_env empty_db sample_message) =
     [CallOpusDetail ''9'', CallGetComments 11 ''9'', CallAnalyze [''http://i/1.jpg''],
      CallRecordCheckIn ''7'', CallAddComment sample_payload, CallRollback ''7'']"
proof -
  have nf: "\<not> failing empty_db" by simp
  let ?dd = "sample_detail [author_module, picture_module]"
  let ?crd = "dynamicCardOf sample_message ''9'' ?dd"
  have crd: "comment_type (basic_c ?crd) = 11" "rid_str (basic_c ?crd) = ''9''" "id_str ?crd = ''9''"
    by (simp_all add: dynamicCardOf_def sample_detail_def)
  obtain db1 where db1: "recordCheckIn empty_db ''7'' ''alice''
      \<lparr>dynamicId = ''9'', timestamp = 8200000, cloudTypes = [cumulus], imageCount = 1,
       analysis = ''a fine cumulus''\<rparr> = Some db1"
    using nf by (simp add: recordCheckIn_eq)
  have sv: "saveCheckIn failing_env empty_db (Some ''7'') (Some ?dd) ?crd [cumulus] ''a fine cumulus''
              = (True, getUserStats db1 ''7'', db1, [CallRecordCheckIn ''7''])"
    using db1 by (simp add: saveCheckIn_def Let_def sample_images sample_author_name crd
          failing_env_fields)
  have pc: "postComment failing_env empty_db 11 ''9'' ?crd (Some ?dd) =
              (False, snd (rollbackLastCheckIn db1 ''7''),
               [CallAnalyze [''http://i/1.jpg''], CallRecordCheckIn ''7'',
                CallAddComment sample_payload, CallRollback ''7''])"
    using sv
    by (simp add: postComment_def failing_env_token
          sample_author analysisStep_def sample_images failing_env_fields Let_def
          rollbackIfSaved_def sample_payload_def authorOf_def)
  have ci: "checkIfUserCommentedAndPost failing_env empty_db 11 ''9'' ?crd (Some ?dd) =
              (False, snd (rollbackLastCheckIn db1 ''7''),
               [CallGetComments 11 ''9'', CallAnalyze [''http://i/1.jpg''], CallRecordCheckIn ''7'',
                CallAddComment sample_payload, CallRollback ''7''])"
    using pc
    by (simp add: checkIfUserCommentedAndPost_def sample_images sample_author
          hasUserCommentedToday_def db_get_def empty_db_def failing_env_fields alreadyCommented_def)
  show ?thesis
    using ci
    by (simp add: processAtMessage_def sample_parse failing_env_fetch
          sample_time failing_env_fields oneDayMs_def truthy_def Let_def crd)
qed

section \<open>Claims about the workflow\<close>

text \<open>
  Claim C1. Take a notification that the loop hands to \<open>processAtMessage\<close> (it is not
  in the ledger), on a store that works. If its processing appended a check-in record for
  the author \<open>a\<close> and then posted a comment for which the endpoint answered a non-zero
  code or raised, then afterwards the notification is still not in the ledger, the number
  of actions recorded for \<open>a\<close> is what it was before (the append was rolled back; an
  author without statistics counts as 0 actions), and \<open>hasUserCommentedToday\<close> for \<open>a\<close>
  is \<open>false\<close>.
\<close>

theorem failed_post_is_compensated:
  assumes run: "processAtMessage env db atMessage = (db', evs)"
    and nf: "\<not> failing db"
    and fresh: "\<not> isAtMessageProcessed db (id_m atMessage)"
    and appended: "CallRecordCheckIn a \<in> set evs"
    and posted: "CallAddComment p \<in> set evs"
    and failed: "addComment env p \<noteq> PostCode 0"
  shows "\<not> isAtMessageProcessed db' (id_m atMessage) \<and>
         totalActions db' a = totalActions db a \<and>
         \<not> hasUserCommentedToday (today env) db' a \<and>
         CallRollback a \<in> set evs"
proof -
  from processAtMessage_cases[OF run] posted
  obtain did dd evs1 ty rid ok db1 evs2 where
    f: "fetchDynamicData env (uri atMessage) did = (Some dd, evs1)"
    and c: "checkIfUserCommentedAndPost env db ty rid (dynamicCardOf atMessage did dd) (Some dd) = (ok, db1, evs2)"
    and r: "if ok then db' = markProcessed env atMessage did db1 \<and>
                       evs = evs1 @ evs2 @ [CallRecordProcessed (id_m atMessage)]
            else db' = db1 \<and> evs = evs1 @ evs2"
    by (elim disjE exE conjE) auto
  have in2: "CallAddComment p \<in> set evs2" "CallRecordCheckIn a \<in> set evs2"
    using posted appended r fetchDynamicData_events[OF f] by (auto split: if_splits)
  from checkIf_cases[OF c] in2(1)
  obtain evs' where pc: "postComment env db ty rid (dynamicCardOf atMessage did dd) (Some dd) = (ok, db1, evs')"
    and e2: "evs2 = CallGetComments ty rid # evs'"
    and gate: "\<forall>a. authorOf (Some dd) = Some a \<longrightarrow> \<not> hasUserCommentedToday (today env) db a"
    by auto
  have in': "CallAddComment p \<in> set evs'" "CallRecordCheckIn a \<in> set evs'"
    using in2 e2 by auto
  from postComment_failed[OF pc in'(1) failed] in'(2) nf
  have nok: "\<not> ok" and frame: "same_except is_stats_key db db1"
    and au: "authorOf (Some dd) = Some a" and tot: "totalActions db1 a = totalActions db a"
    and rb: "CallRollback a \<in> set evs'"
    by blast+
  from nok r have eq: "db' = db1" "evs = evs1 @ evs2" by simp_all
  have "\<not> isAtMessageProcessed db' (id_m atMessage)"
    using same_except_processed[OF frame, of "id_m atMessage"] fresh eq by simp
  moreover have "\<not> hasUserCommentedToday (today env) db' a"
    using same_except_daily[OF frame, of a "today env"] gate au eq by simp
  ultimately show ?thesis using tot rb eq e2 by simp
qed

theorem failed_post_is_compensated_witness:
  "\<not> failing empty_db \<and>
   \<not> isAtMessageProcessed empty_db (id_m sample_message) \<and>
   CallRecordCheckIn ''7'' \<in> set (snd (processAtMessage failing_env empty_db sample_message)) \<and>
   CallAddComment sample_payload \<in> set (snd (processAtMessage failing_env empty_db sample_message)) \<and>
   addComment failing_env sample_payload \<noteq> PostCode 0 \<and>
   \<not> isAtMessageProcessed (fst (processAtMessage failing_env empty_db sample_message)) (id_m sample_message) \<and>
   totalActions (fst (processAtMessage failing_env empty_db sample_message)) ''7'' = 0 \<and>
   \<not> hasUserCommentedToday new_years_eve (fst (processAtMessage failing_env empty_db sample_message)) ''7'' \<and>
   CallRollback ''7'' \<in> set (snd (processAtMessage failing_env empty_db sample_message))"
proof -
  let ?run = "processAtMessage failing_env empty_db sample_message"
  have h1: "?run = (fst ?run, snd ?run)" by simp
  have h2: "\<not> failing empty_db" by simp
  have h3: "\<not> isAtMessageProcessed empty_db (id_m sample_message)"
    by (simp add: isAtMessageProcessed_def db_get_def empty_db_def)
  have h4: "CallRecordCheckIn ''7'' \<in> set (snd ?run)" by (simp add: failing_run_events)
  have h5: "CallAddComment sample_payload \<in> set (snd ?run)" by (simp add: failing_run_events)
  have h6: "addComment failing_env sample_payload \<noteq> PostCode 0" by (simp add: failing_env_fields)
  have t0: "totalActions empty_db ''7'' = 0"
    by (simp add: totalActions_def getUserStats_empty_db)
  show ?thesis
    using failed_post_is_compensated[OF h1 h2 h3 h4 h5 h6] h2 h3 h4 h5 h6 t0
    by (simp add: failing_env_fields)
qed

text \<open>
  Claim C6. Take a notification whose URI yields a dynamic id and whose detail was
  fetched, on a store that works. If the card built from the detail holds no image, the
  notification is in the ledger afterwards, and its processing made no call of
  \<open>recordCheckIn\<close> and no post of a comment; the statistics of every entity are as before.
\<close>

theorem no_image_short_circuit:
  assumes nf: "\<not> failing db"
    and parse: "extractDynamicId (uri atMessage) = Inr did"
    and fetch: "fetchDynamicData env (uri atMessage) did = (Some dynamicData, evs1)"
    and noimg: "checkImagesInDynamicCard (dynamicCardOf atMessage did dynamicData) = []"
    and run: "processAtMessage env db atMessage = (db', evs)"
  shows "isAtMessageProcessed db' (id_m atMessage) \<and>
         (\<forall>a. CallRecordCheckIn a \<notin> set evs) \<and>
         (\<forall>p. CallAddComment p \<notin> set evs) \<and>
         (\<forall>u. getUserStats db' u = getUserStats db u)"
proof -
  have res: "db' = markProcessed env atMessage did db"
    "evs = evs1 @ [CallRecordProcessed (id_m atMessage)]"
    using run parse fetch noimg
    by (auto simp: processAtMessage_def Let_def checkIf_no_images split: if_splits)
  have "isAtMessageProcessed db' (id_m atMessage)"
    using res nf by (simp add: markProcessed_processed)
  moreover have "\<forall>u. getUserStats db' u = getUserStats db u"
    using same_except_user[OF markProcessed_frame[of atMessage db env did]] res by simp
  moreover have "(\<forall>a. CallRecordCheckIn a \<notin> set evs) \<and> (\<forall>p. CallAddComment p \<notin> set evs)"
    using res fetchDynamicData_events[OF fetch] by auto
  ultimately show ?thesis by blast
qed

theorem no_image_short_circuit_witness:
  "\<not> failing empty_db \<and>
   extractDynamicId (uri sample_message) = Inr ''9'' \<and>
   fetchDynamicData passing_env (uri sample_message) ''9''
     = (Some (sample_detail [author_module]), [CallOpusDetail ''9'']) \<and>
   checkImagesInDynamicCard (dynamicCardOf sample_message ''9'' (sample_detail [author_module])) = [] \<and>
   isAtMessageProcessed (fst (processAtMessage passing_env empty_db sample_message)) (id_m sample_message) \<and>
   CallRecordCheckIn ''7'' \<notin> set (snd (processAtMessage passing_env empty_db sample_message)) \<and>
   CallAddComment sample_payload \<notin> set (snd (processAtMessage passing_env empty_db sample_message)) \<and>
   getUserStats (fst (processAtMessage passing_env empty_db sample_message)) ''7'' = None"
proof -
  let ?run = "processAtMessage passing_env empty_db sample_message"
  have h1: "\<not> failing empty_db" by simp
  have h2: "extractDynamicId (uri sample_message) = Inr ''9''" by (rule sample_parse)
  have h3: "fetchDynamicData passing_env (uri sample_message) ''9''
              = (Some (sample_detail [author_module]), [CallOpusDetail ''9''])"
    unfolding passing_env_def by (rule sample_fetch)
  have h4: "checkImagesInDynamicCard (dynamicCardOf sample_message ''9'' (sample_detail [author_module])) = []"
    by (rule sample_no_images)
  have h5: "?run = (fst ?run, snd ?run)" by simp
  show ?thesis
    using no_image_short_circuit[OF h1 h2 h3 h4 h5] h1 h2 h3 h4
    by (simp add: getUserStats_empty_db)
qed

text \<open>
  Claim C4. If a notification id is in the ledger when a cycle starts, the cycle makes no
  call at all for it (none to the content service, the analysis or the comment endpoint,
  and no write to the store), its ledger record is what it was, and it is still in the
  ledger when the cycle ends.
\<close>

theorem processed_notification_is_skipped:
  assumes "isAtMessageProcessed db n"
    and "checkAndComment env isProcessing db = (flag, db', calls)"
  shows "(\<forall>e. ForMessage n e \<notin> set calls) \<and>
         getProcessedAtMessage db' n = getProcessedAtMessage db n \<and>
         isAtMessageProcessed db' n"
proof -
  have "calls = [] \<and> db' = db \<or> calls = [FeedCall] \<and> db' = db \<or>
        (\<exists>ms calls'. processAll env ms db = (db', calls') \<and> calls = FeedCall # calls')"
    using assms(2)
    by (auto simp: checkAndComment_def Let_def
          split: if_splits FeedResult.splits option.splits prod.splits)
  then show ?thesis
    using assms(1) processAll_skips[OF assms(1)] by auto
qed

theorem processed_notification_is_skipped_witness:
  "isAtMessageProcessed db_processed 42 \<and>
   snd (snd (checkAndComment two_message_env False db_processed))
     = [FeedCall, ForMessage 43 (CallRecordProcessed 43)] \<and>
   ForMessage 42 (CallOpusDetail ''9'') \<notin> set (snd (snd (checkAndComment two_message_env False db_processed))) \<and>
   getProcessedAtMessage (fst (snd (checkAndComment two_message_env False db_processed))) 42
     = getProcessedAtMessage db_processed 42 \<and>
   isAtMessageProcessed (fst (snd (checkAndComment two_message_env False db_processed))) 42"
proof -
  let ?run = "checkAndComment two_message_env False db_processed"
  have h1: "isAtMessageProcessed db_processed 42"
    by (simp add: isAtMessageProcessed_def db_get_def db_processed_def)
  have h2: "?run = (fst ?run, fst (snd ?run), snd (snd ?run))" by simp
  have k: "processed_key 43 \<noteq> processed_key 42"
    by (simp add: processed_key_def num_str_def nat_str.simps digit_char_def)
  have n43: "\<not> isAtMessageProcessed db_processed 43"
    using k by (simp add: isAtMessageProcessed_def db_get_def db_processed_def)
  have other: "snd (processAtMessage two_message_env db_processed other_message)
                 = [CallRecordProcessed 43]"
    by (simp add: processAtMessage_def extractDynamicId_def other_message_def starts_with_def)
  have calls: "snd (snd ?run) = [FeedCall, ForMessage 43 (CallRecordProcessed 43)]"
    using h1 n43 other
    by (simp add: checkAndComment_def two_message_env_def sample_message_def
          other_message_def split_def Let_def)
  show ?thesis
    using processed_notification_is_skipped[OF h1 h2] h1 calls by simp
qed

end
